theory Spec2Isabelle
  imports Main "HOL-Library.Word"
begin

section \<open>Data model of the OVH provider (provider/ovh/ovh.go)\<close>

text \<open>
  Go's fixed-width integers are words: record ids are \<open>uint64\<close>, TTLs are \<open>int64\<close>,
  SOA serials are \<open>uint32\<close>. Go strings are byte sequences, as \<open>string\<close> is here.
\<close>

type_synonym uint64 = "64 word"

type_synonym int64 = "64 word"

type_synonym uint32 = "32 word"

text \<open>
  The structs \<open>ovhRecordFieldUpdate\<close>, \<open>ovhRecordFields\<close>, \<open>ovhRecord\<close> and
  \<open>ovhChange\<close> embed one another; an embedded struct promotes its fields, which is what
  record extension does.
\<close>

record ovhRecordFieldUpdate =
  SubDomain :: string
  TTL :: int64
  Target :: string

record ovhRecordFields = ovhRecordFieldUpdate +
  FieldType :: string

record ovhRecord = ovhRecordFields +
  ID :: uint64
  Zone :: string

record ovhChange = ovhRecord +
  Action :: int

text \<open>
  The constant block of the source starts with \<open>ovhDefaultTTL = 0\<close>, so \<open>iota\<close> is 1
  on the line of \<open>ovhCreate\<close>.
\<close>

definition ovhDefaultTTL :: int64 where
  "ovhDefaultTTL = 0"

definition ovhCreate :: int where
  "ovhCreate = 1"

definition ovhDelete :: int where
  "ovhDelete = 2"

definition ovhUpdate :: int where
  "ovhUpdate = 3"

text \<open>
  \<open>endpoint.Endpoint\<close> is declared outside the files at hand; the record holds the fields
  the provider reads. The endpoint lists handed to the planner are lists of non-nil
  pointers.
\<close>

record Endpoint =
  DNSName :: string
  Targets :: "string list"
  RecordType :: string
  RecordTTL :: int64

text \<open>
  Modelled from the spec: \<open>endpoint.TTL.IsConfigured\<close> is not in the files at hand. The
  data model gives a ttl of 0 the meaning "use provider default", and source/source.go
  accepts configured TTLs from 1 upwards only.
\<close>

definition IsConfigured :: "int64 \<Rightarrow> bool" where
  "IsConfigured ttl = (0 < sint ttl)"

subsection \<open>Library functions of Go used by the planner\<close>

definition HasSuffix :: "string \<Rightarrow> string \<Rightarrow> bool" where
  "HasSuffix s suf = (length suf \<le> length s \<and> drop (length s - length suf) s = suf)"

definition TrimSuffix :: "string \<Rightarrow> string \<Rightarrow> string" where
  "TrimSuffix s suf = (if HasSuffix s suf then take (length s - length suf) s else s)"

definition HasPrefix :: "string \<Rightarrow> string \<Rightarrow> bool" where
  "HasPrefix s pre = (take (length pre) s = pre)"

definition TrimPrefix :: "string \<Rightarrow> string \<Rightarrow> string" where
  "TrimPrefix s pre = (if HasPrefix s pre then drop (length pre) s else s)"

text \<open>
  \<open>slices.Delete(s, i, j)\<close> removes the elements \<open>s[i:j]\<close> and panics when \<open>s[i:j]\<close> is
  not a valid slice of \<open>s\<close>; \<open>None\<close> is the panic. With \<open>i = j\<close> the range is empty
  and the slice comes back as it was.
\<close>

definition slices_Delete :: "'a list \<Rightarrow> nat \<Rightarrow> nat \<Rightarrow> 'a list option" where
  "slices_Delete s i j =
     (if i \<le> j \<and> j \<le> length s then Some (take i s @ drop j s) else None)"

text \<open>
  The inner search loops of the planner: the first index whose element satisfies the test,
  where the loop breaks.
\<close>

fun first_index :: "('a \<Rightarrow> bool) \<Rightarrow> 'a list \<Rightarrow> nat \<Rightarrow> (nat \<times> 'a) option" where
  "first_index P [] i = None"
| "first_index P (x # xs) i = (if P x then Some (i, x) else first_index P xs (Suc i))"

text \<open>A loop whose body can panic: the first panic ends it.\<close>

fun fold_option :: "('a \<Rightarrow> 'b \<Rightarrow> 'b option) \<Rightarrow> 'a list \<Rightarrow> 'b \<Rightarrow> 'b option" where
  "fold_option f [] s = Some s"
| "fold_option f (x # xs) s = (case f x s of None \<Rightarrow> None | Some s' \<Rightarrow> fold_option f xs s')"

text \<open>
  Go leaves the order in which \<open>range\<close> visits the keys of a map unspecified, visiting
  each key once. The functions that range over a map take the order \<open>ks\<close> as an
  argument and visit the keys of the map as \<open>ks\<close> lists them; \<open>range_order m ks\<close>
  says that \<open>ks\<close> is an order Go can choose for \<open>m\<close>.
\<close>

definition range_keys :: "('k \<rightharpoonup> 'v) \<Rightarrow> 'k list \<Rightarrow> 'k list" where
  "range_keys m ks = filter (\<lambda>k. m k \<noteq> None) ks"

definition range_order :: "('k \<rightharpoonup> 'v) \<Rightarrow> 'k list \<Rightarrow> bool" where
  "range_order m ks = (distinct ks \<and> set ks = dom m)"

section \<open>The Create/Delete path: newOvhChangeCreateDelete\<close>

definition new_change :: "int \<Rightarrow> Endpoint \<Rightarrow> string \<Rightarrow> string \<Rightarrow> ovhChange" where
  "new_change action e zone target =
     \<lparr> SubDomain = TrimSuffix (DNSName e) (''.'' @ zone),
       TTL = (if IsConfigured (RecordTTL e) then RecordTTL e else ovhDefaultTTL),
       Target = target,
       FieldType = RecordType e,
       ID = 0,
       Zone = zone,
       Action = action \<rparr>"

definition same_record :: "ovhChange \<Rightarrow> ovhRecord \<Rightarrow> bool" where
  "same_record change rec =
     (Zone rec = Zone change \<and> SubDomain rec = SubDomain change
      \<and> FieldType rec = FieldType change \<and> Target rec = Target change)"

text \<open>
  The body of the loop over the targets of one endpoint. The state of the loop is the pair
  of \<open>ovhChanges\<close> and \<open>toDeleteIds\<close>; \<open>existingRecords\<close> is only read.
\<close>

definition create_delete_target ::
  "int \<Rightarrow> string \<Rightarrow> ovhRecord list \<Rightarrow> Endpoint \<Rightarrow> string
    \<Rightarrow> ovhChange list \<times> nat list \<Rightarrow> ovhChange list \<times> nat list" where
  "create_delete_target action zone existingRecords e target st =
     (let change = new_change action e zone target;
          ovhChanges = fst st;
          toDeleteIds = snd st
      in if action = ovhDelete then
           (case first_index (same_record change) existingRecords 0 of
              Some (i, rec) \<Rightarrow> (ovhChanges @ [change\<lparr>ID := ID rec\<rparr>], toDeleteIds @ [i])
            | None \<Rightarrow> (ovhChanges @ [change], toDeleteIds))
         else (ovhChanges @ [change], toDeleteIds))"

definition create_delete_loop ::
  "int \<Rightarrow> string \<Rightarrow> ovhRecord list \<Rightarrow> Endpoint list \<Rightarrow> ovhChange list \<times> nat list" where
  "create_delete_loop action zone existingRecords endpoints =
     fold (\<lambda>e. fold (create_delete_target action zone existingRecords e) (Targets e))
       endpoints ([], [])"

text \<open>The loops \<open>for _, i := range ids { s = slices.Delete(s, i, i) }\<close>.\<close>

definition delete_ids :: "'a list \<Rightarrow> nat list \<Rightarrow> 'a list option" where
  "delete_ids s ids = fold_option (\<lambda>i s. slices_Delete s i i) ids s"

text \<open>The result \<open>None\<close> is a run-time panic of the Go function.\<close>

definition newOvhChangeCreateDelete ::
  "int \<Rightarrow> Endpoint list \<Rightarrow> string \<Rightarrow> ovhRecord list
    \<Rightarrow> (ovhChange list \<times> ovhRecord list) option" where
  "newOvhChangeCreateDelete action endpoints zone existingRecords =
     (let st = create_delete_loop action zone existingRecords endpoints
      in case delete_ids existingRecords (snd st) of
           None \<Rightarrow> None
         | Some rs \<Rightarrow> Some (fst st, rs))"

section \<open>The Update path: newOvhChangeUpdate\<close>

definition endpoint_key :: "string \<Rightarrow> Endpoint \<Rightarrow> string" where
  "endpoint_key zone e = RecordType e @ ''//'' @ TrimSuffix (DNSName e) (''.'' @ zone)"

definition endpointByTypeAndName :: "string \<Rightarrow> Endpoint list \<Rightarrow> (string \<rightharpoonup> Endpoint)" where
  "endpointByTypeAndName zone endpoints =
     fold (\<lambda>e m. m(endpoint_key zone e \<mapsto> e)) endpoints Map.empty"

definition record_key :: "'a ovhRecord_scheme \<Rightarrow> string" where
  "record_key r = FieldType r @ ''//'' @ SubDomain r"

text \<open>
  \<open>oldRecordsInZone\<close> is a map to slices that is read and appended to without a test for
  presence: a missing key reads as the empty slice.
\<close>

definition oldRecordsInZone :: "string list \<Rightarrow> ovhRecord list \<Rightarrow> string \<Rightarrow> ovhRecord list" where
  "oldRecordsInZone ks existingRecords =
     fold (\<lambda>key. fold (\<lambda>record m. if key = record_key record
                                       then m(key := m key @ [record]) else m)
                      existingRecords)
       ks (\<lambda>_. [])"

definition to_change :: "ovhRecord \<Rightarrow> int \<Rightarrow> ovhChange" where
  "to_change r a =
     \<lparr> SubDomain = SubDomain r, TTL = TTL r, Target = Target r, FieldType = FieldType r,
       ID = ID r, Zone = Zone r, Action = a \<rparr>"

text \<open>
  The loop over the targets of the new endpoint. Its state is the pair of \<open>oldRecords\<close>
  and \<open>toInsertTarget\<close>. The source's \<open>toDelete\<close> is \<open>-1\<close> when the search finds
  nothing, which is the \<open>None\<close> of \<open>first_index\<close>.
\<close>

definition match_target ::
  "string \<Rightarrow> ovhRecord list \<times> string list \<Rightarrow> (ovhRecord list \<times> string list) option" where
  "match_target target st =
     (let oldRecords = fst st; toInsertTarget = snd st
      in case first_index (\<lambda>record. target = Target record) oldRecords 0 of
           Some (toDelete, _) \<Rightarrow>
             (case slices_Delete oldRecords toDelete toDelete of
                None \<Rightarrow> None
              | Some rs \<Rightarrow> Some (rs, toInsertTarget))
         | None \<Rightarrow> Some (oldRecords, toInsertTarget @ [target]))"

definition update_ttl :: "Endpoint \<Rightarrow> int64" where
  "update_ttl endpointsNew =
     (if IsConfigured (RecordTTL endpointsNew) then RecordTTL endpointsNew else ovhDefaultTTL)"

text \<open>
  The loop that pairs the targets to insert with the records left over. Its state is
  \<open>oldRecords\<close>, \<open>changes\<close> and \<open>toInsertTargetToDelete\<close>; it breaks when
  \<open>oldRecords\<close> is empty.
\<close>

fun pair_targets ::
  "Endpoint \<Rightarrow> (nat \<times> string) list \<Rightarrow> ovhRecord list \<times> ovhChange list \<times> nat list
    \<Rightarrow> (ovhRecord list \<times> ovhChange list \<times> nat list) option" where
  "pair_targets endpointsNew [] st = Some st"
| "pair_targets endpointsNew ((i, target) # rest) (oldRecords, changes, toInsertTargetToDelete) =
     (case oldRecords of
        [] \<Rightarrow> Some (oldRecords, changes, toInsertTargetToDelete)
      | record # _ \<Rightarrow>
          (case slices_Delete oldRecords 0 0 of
             None \<Rightarrow> None
           | Some rs \<Rightarrow>
               pair_targets endpointsNew rest
                 (rs,
                  changes @ [to_change (record\<lparr>Target := target, TTL := update_ttl endpointsNew\<rparr>)
                               ovhUpdate],
                  toInsertTargetToDelete @ [i])))"

text \<open>
  The body of the loop over the groups (\<open>key\<close> is the source's \<open>id\<close>). A key of the old map that the new map lacks reads
  as a nil pointer, and the loop over its \<open>Targets\<close> panics.
\<close>

definition update_group ::
  "string \<Rightarrow> (string \<Rightarrow> ovhRecord list) \<Rightarrow> (string \<rightharpoonup> Endpoint) \<Rightarrow> string
    \<Rightarrow> ovhChange list \<Rightarrow> ovhChange list option" where
  "update_group zone recordsInZone newEndpointByTypeAndName key changes =
     (case newEndpointByTypeAndName key of
        None \<Rightarrow> None
      | Some endpointsNew \<Rightarrow>
          (case fold_option match_target (Targets endpointsNew) (recordsInZone key, []) of
             None \<Rightarrow> None
           | Some (oldRecords, toInsertTarget) \<Rightarrow>
               (case pair_targets endpointsNew (enumerate 0 toInsertTarget) (oldRecords, changes, []) of
                  None \<Rightarrow> None
                | Some (oldRecords', changes', toInsertTargetToDelete) \<Rightarrow>
                    (case delete_ids toInsertTarget toInsertTargetToDelete of
                       None \<Rightarrow> None
                     | Some toInsertTarget' \<Rightarrow>
                         Some (changes'
                               @ map (new_change ovhCreate endpointsNew zone) toInsertTarget'
                               @ map (\<lambda>r. to_change r ovhDelete) oldRecords')))))"

text \<open>
  \<open>ks1\<close> and \<open>ks2\<close> are the orders of the two loops over
  \<open>oldEndpointByTypeAndName\<close>. The result \<open>None\<close> is a run-time panic.
\<close>

definition newOvhChangeUpdate ::
  "string list \<Rightarrow> string list \<Rightarrow> Endpoint list \<Rightarrow> Endpoint list \<Rightarrow> string \<Rightarrow> ovhRecord list
    \<Rightarrow> ovhChange list option" where
  "newOvhChangeUpdate ks1 ks2 endpointsOld endpointsNew zone existingRecords =
     (let oldEndpointByTypeAndName = endpointByTypeAndName zone endpointsOld;
          newEndpointByTypeAndName = endpointByTypeAndName zone endpointsNew;
          recordsInZone =
            oldRecordsInZone (range_keys oldEndpointByTypeAndName ks1) existingRecords
      in fold_option (update_group zone recordsInZone newEndpointByTypeAndName)
           (range_keys oldEndpointByTypeAndName ks2) [])"

section \<open>The provider, its collaborators and its errors\<close>

text \<open>
  The two sentinel errors of the package, the errors of the collaborators (their message),
  and \<open>provider.NewSoftError\<close>, which wraps an error as retry-safe. The collaborators are
  libraries that do not know this package: an error of theirs is never one of its two
  sentinel errors.
\<close>

datatype error =
    ErrRecordToMutateNotFound
  | ErrNoDryRun
  | ClientError string
  | SoftError error

text \<open>
  A call that leaves the process, by method and path (the zone and the record id are the
  parameters of the path, which \<open>url.PathEscape\<close> encodes one-to-one) and body:
  \<open>POST /domain/zone/{zone}/record\<close>, \<open>POST /domain/zone/{zone}/refresh\<close>,
  \<open>PUT\<close> and \<open>DELETE /domain/zone/{zone}/record/{id}\<close>, \<open>GET /domain/zone/{zone}/soa\<close>,
  \<open>GET /domain/zone/{zone}/record\<close>, \<open>GET /domain/zone/{zone}/record/{id}\<close>, and the SOA
  question for a zone sent to a name server.
\<close>

datatype request =
    PostRecord string ovhRecordFields
  | PostRefresh string
  | PutRecord string uint64 ovhRecordFieldUpdate
  | DeleteRecord string uint64
  | GetSoa string
  | GetRecordIds string
  | GetRecord string uint64
  | ExchangeSOA string string

text \<open>A resource record of a DNS answer: an SOA with its serial, or a record of another type.\<close>

datatype RR = SOA uint32 | OtherRR

text \<open>
  The remote store and the name server are outside the program. A collaborator is a
  function of the calls made so far and the call at hand, so that its answers can change
  from one call to the next; an answer is an error message or a value.
\<close>

record ovhClient =
  PostWithContext :: "request list \<Rightarrow> request \<Rightarrow> string option"
  PutWithContext :: "request list \<Rightarrow> request \<Rightarrow> string option"
  DeleteWithContext :: "request list \<Rightarrow> request \<Rightarrow> string option"
  GetWithContext_soa :: "request list \<Rightarrow> request \<Rightarrow> string + (string \<times> uint32)"
  GetWithContext_ids :: "request list \<Rightarrow> request \<Rightarrow> string + uint64 list"
  GetWithContext_record :: "request list \<Rightarrow> request \<Rightarrow> string + ovhRecord"

record ovhSoa =
  Server :: string
  Serial :: uint32
  soa_records :: "ovhRecord list"

text \<open>
  \<open>apiRateLimiter\<close> counts the tokens taken from the limiter; \<open>calls\<close> is the log of the
  calls sent through \<open>client\<close> and \<open>dnsClient\<close>. \<open>cacheInstance\<close> holds the entries
  that \<open>Get\<close> finds: an entry past its lifetime is absent.
\<close>

record OVHProvider =
  client :: ovhClient
  apiRateLimiter :: nat
  domainFilter :: "string \<Rightarrow> bool"
  DryRun :: bool
  UseCache :: bool
  lastRunRecords :: "ovhRecord list"
  lastRunZones :: "string list"
  cacheInstance :: "string \<rightharpoonup> ovhSoa"
  dnsClient :: "request list \<Rightarrow> request \<Rightarrow> string + RR list"
  calls :: "request list"

definition Take :: "OVHProvider \<Rightarrow> OVHProvider" where
  "Take p = p\<lparr>apiRateLimiter := apiRateLimiter p + 1\<rparr>"

definition send :: "(request list \<Rightarrow> request \<Rightarrow> 'r) \<Rightarrow> request \<Rightarrow> OVHProvider \<Rightarrow> 'r \<times> OVHProvider" where
  "send collaborator req p = (collaborator (calls p) req, p\<lparr>calls := calls p @ [req]\<rparr>)"

definition invalidateCache :: "string \<Rightarrow> OVHProvider \<Rightarrow> OVHProvider" where
  "invalidateCache zone p = p\<lparr>cacheInstance := (cacheInstance p)(zone @ ''#soa'' := None)\<rparr>"

text \<open>
  \<open>cache.Add\<close> stores an item only if the key has none, and reports an error otherwise,
  which the source drops.
\<close>

definition cache_Add :: "string \<Rightarrow> ovhSoa \<Rightarrow> OVHProvider \<Rightarrow> OVHProvider" where
  "cache_Add k v p =
     (if cacheInstance p k = None then p\<lparr>cacheInstance := (cacheInstance p)(k \<mapsto> v)\<rparr> else p)"

text \<open>
  An \<open>errgroup\<close>: every task is started, and \<open>Wait\<close> returns the first error once all
  have finished. The tasks run here one after the other in the order they are started; in
  Go they interleave and the first error is the first in time. A panic in a task
  (\<open>None\<close>) ends the process.
\<close>

fun run_all ::
  "('a \<Rightarrow> 's \<Rightarrow> (error option \<times> 's) option) \<Rightarrow> 'a list \<Rightarrow> 's \<Rightarrow> (error option list \<times> 's) option" where
  "run_all task [] s = Some ([], s)"
| "run_all task (x # xs) s =
     (case task x s of
        None \<Rightarrow> None
      | Some (err, s') \<Rightarrow>
          (case run_all task xs s' of
             None \<Rightarrow> None
           | Some (errs, s'') \<Rightarrow> Some (err # errs, s'')))"

fun first_error :: "error option list \<Rightarrow> error option" where
  "first_error [] = None"
| "first_error (None # errs) = first_error errs"
| "first_error (Some e # errs) = Some e"

definition errgroup ::
  "('a \<Rightarrow> 's \<Rightarrow> (error option \<times> 's) option) \<Rightarrow> 'a list \<Rightarrow> 's \<Rightarrow> (error option \<times> 's) option" where
  "errgroup task xs s =
     (case run_all task xs s of
        None \<Rightarrow> None
      | Some (errs, s') \<Rightarrow> Some (first_error errs, s'))"

section \<open>The executor: change, refresh, handleSingleZoneUpdate, ApplyChanges\<close>

definition change :: "ovhChange \<Rightarrow> OVHProvider \<Rightarrow> error option \<times> OVHProvider" where
  "change c p0 =
     (let p = Take p0
      in if Action c = ovhCreate then
           (case send (PostWithContext (client p))
                   (PostRecord (Zone c) (ovhRecordFields.truncate c)) p of
              (err, p') \<Rightarrow> (map_option ClientError err, p'))
         else if Action c = ovhDelete then
           (if ID c = 0 then (Some ErrRecordToMutateNotFound, p)
            else (case send (DeleteWithContext (client p)) (DeleteRecord (Zone c) (ID c)) p of
                    (err, p') \<Rightarrow> (map_option ClientError err, p')))
         else if Action c = ovhUpdate then
           (if ID c = 0 then (Some ErrRecordToMutateNotFound, p)
            else (case send (PutWithContext (client p))
                         (PutRecord (Zone c) (ID c) (ovhRecordFieldUpdate.truncate c)) p of
                    (err, p') \<Rightarrow> (map_option ClientError err, p')))
         else (None, p))"

definition refresh :: "string \<Rightarrow> OVHProvider \<Rightarrow> error option \<times> OVHProvider" where
  "refresh zone p0 =
     (let p = Take (invalidateCache zone p0)
      in case send (PostWithContext (client p)) (PostRefresh zone) p of
           (err, p') \<Rightarrow> (map_option (\<lambda>e. SoftError (ClientError e)) err, p'))"

text \<open>\<open>plan.Changes\<close>, declared outside the files at hand, by the fields the provider reads.\<close>

record Changes =
  Create :: "Endpoint list"
  UpdateOld :: "Endpoint list"
  UpdateNew :: "Endpoint list"
  Delete :: "Endpoint list"

text \<open>
  The first half of \<open>handleSingleZoneUpdate\<close>, which computes \<open>allChanges\<close>. \<open>ks1\<close>
  and \<open>ks2\<close> are the orders of the two map loops of \<open>newOvhChangeUpdate\<close>. \<open>None\<close> is
  a panic of the planner.
\<close>

definition allChanges ::
  "string list \<Rightarrow> string list \<Rightarrow> string \<Rightarrow> ovhRecord list \<Rightarrow> Changes \<Rightarrow> ovhChange list option" where
  "allChanges ks1 ks2 zoneName existingRecords changes =
     (case newOvhChangeCreateDelete ovhCreate (Create changes) zoneName existingRecords of
        None \<Rightarrow> None
      | Some (created, existingRecords1) \<Rightarrow>
     (case newOvhChangeCreateDelete ovhDelete (Delete changes) zoneName existingRecords1 of
        None \<Rightarrow> None
      | Some (deleted, existingRecords2) \<Rightarrow>
     (case newOvhChangeUpdate ks1 ks2 (UpdateOld changes) (UpdateNew changes) zoneName
             existingRecords2 of
        None \<Rightarrow> None
      | Some updated \<Rightarrow> Some (created @ deleted @ updated))))"

text \<open>
  The second half: the changes are dispatched in an \<open>errgroup\<close>; without an error the zone
  is refreshed, with one its cache entry is invalidated.
\<close>

definition handleSingleZoneUpdate ::
  "string list \<Rightarrow> string list \<Rightarrow> string \<Rightarrow> ovhRecord list \<Rightarrow> Changes \<Rightarrow> OVHProvider
    \<Rightarrow> (error option \<times> OVHProvider) option" where
  "handleSingleZoneUpdate ks1 ks2 zoneName existingRecords changes p =
     (case allChanges ks1 ks2 zoneName existingRecords changes of
        None \<Rightarrow> None
      | Some cs \<Rightarrow>
          (case errgroup (\<lambda>c q. Some (change c q)) cs p of
             None \<Rightarrow> None
           | Some (err, p') \<Rightarrow>
               Some (if err = None then refresh zoneName p'
                     else (err, invalidateCache zoneName p'))))"

text \<open>
  Modelled from the spec: \<open>provider.ZoneIDName\<close> with \<open>Add\<close> and \<open>FindZone\<close> is not in the
  files at hand. An endpoint is assigned by longest-suffix match of its hostname against
  the zone list, a zone name being a dot-bounded suffix of the hostname; with no match the
  named result of the Go function keeps its zero value, the empty string.
\<close>

definition FindZone :: "string list \<Rightarrow> string \<Rightarrow> string" where
  "FindZone zones hostname =
     fold (\<lambda>zoneName suitableZoneName.
             if (hostname = zoneName \<or> HasSuffix hostname (''.'' @ zoneName))
                \<and> (suitableZoneName = '''' \<or> length suitableZoneName < length zoneName)
             then zoneName else suitableZoneName)
       zones ''''"

definition no_changes :: Changes where
  "no_changes = \<lparr>Create = [], UpdateOld = [], UpdateNew = [], Delete = []\<rparr>"

definition assign ::
  "string list \<Rightarrow> ((Endpoint list \<Rightarrow> Endpoint list) \<Rightarrow> Changes \<Rightarrow> Changes) \<Rightarrow> Endpoint
    \<Rightarrow> (string \<rightharpoonup> Changes) \<Rightarrow> (string \<rightharpoonup> Changes)" where
  "assign zones field_update endpt output =
     (let zoneName = FindZone zones (DNSName endpt);
          output' = (if output zoneName = None then output(zoneName \<mapsto> no_changes) else output)
      in output'(zoneName := map_option (field_update (\<lambda>es. es @ [endpt])) (output' zoneName)))"

definition planChangesByZoneName :: "string list \<Rightarrow> Changes \<Rightarrow> (string \<rightharpoonup> Changes)" where
  "planChangesByZoneName zones changes =
     fold (assign zones UpdateNew_update) (UpdateNew changes)
       (fold (assign zones UpdateOld_update) (UpdateOld changes)
         (fold (assign zones Create_update) (Create changes)
           (fold (assign zones Delete_update) (Delete changes) Map.empty)))"

text \<open>The pairs of a map in the order \<open>ks\<close> of its keys.\<close>

definition range_items :: "('k \<rightharpoonup> 'v) \<Rightarrow> 'k list \<Rightarrow> ('k \<times> 'v) list" where
  "range_items m ks = List.map_filter (\<lambda>k. map_option (Pair k) (m k)) ks"

text \<open>
  \<open>zs\<close> is the order of the loop over \<open>changesByZoneName\<close>; \<open>order1 zone\<close> and
  \<open>order2 zone\<close> are the orders of the map loops of the planner for that zone. The
  deferred function resets \<open>lastRunRecords\<close> and \<open>lastRunZones\<close> when \<open>ApplyChanges\<close>
  returns.
\<close>

definition ApplyChanges ::
  "string list \<Rightarrow> (string \<Rightarrow> string list) \<Rightarrow> (string \<Rightarrow> string list) \<Rightarrow> Changes \<Rightarrow> OVHProvider
    \<Rightarrow> (error option \<times> OVHProvider) option" where
  "ApplyChanges zs order1 order2 changes p =
     (let zones = lastRunZones p;
          records = lastRunRecords p;
          changesByZoneName = planChangesByZoneName zones changes
      in case errgroup (\<lambda>(zoneName, changes).
                  handleSingleZoneUpdate (order1 zoneName) (order2 zoneName) zoneName records changes)
                (range_items changesByZoneName zs) p of
           None \<Rightarrow> None
         | Some (err, p') \<Rightarrow>
             Some (map_option SoftError err, p'\<lparr>lastRunRecords := [], lastRunZones := []\<rparr>))"

section \<open>The fetcher: record and records\<close>

text \<open>
  \<open>provider.SupportedRecordType\<close> is not in the files at hand; it is the argument
  \<open>supported\<close>. The state of the tasks of the group is the provider and the records sent to
  the channel \<open>chRecords\<close> so far. (Go's \<open>record\<close>; the name is a keyword here.)
\<close>

definition record_by_id ::
  "(string \<Rightarrow> bool) \<Rightarrow> string \<Rightarrow> uint64 \<Rightarrow> OVHProvider \<times> ovhRecord list
    \<Rightarrow> error option \<times> OVHProvider \<times> ovhRecord list" where
  "record_by_id supported zone i st =
     (let p = Take (fst st); chRecords = snd st
      in case send (GetWithContext_record (client p)) (GetRecord zone i) p of
           (Inl err, p') \<Rightarrow> (Some (ClientError err), p', chRecords)
         | (Inr r, p') \<Rightarrow>
             (None, p', if supported (FieldType r) then chRecords @ [r] else chRecords))"

text \<open>
  The part of \<open>records\<close> from the comment "Getting records for zone from API" on. The
  result is the error returned, or the records sent to the channel \<open>records\<close>.
\<close>

definition records_from_api ::
  "(string \<Rightarrow> bool) \<Rightarrow> string \<Rightarrow> OVHProvider \<Rightarrow> ((error + ovhRecord list) \<times> OVHProvider) option" where
  "records_from_api supported zone p0 =
     (let p = Take p0
      in case (if UseCache p
               then (case send (GetWithContext_soa (client p)) (GetSoa zone) p of
                       (Inl err, p1) \<Rightarrow> (Inl err, p1)
                     | (Inr (server, serial), p1) \<Rightarrow>
                         (Inr \<lparr>Server = server, Serial = serial, soa_records = []\<rparr>, p1))
               else (Inr \<lparr>Server = [], Serial = 0, soa_records = []\<rparr>, p)) of
           (Inl err, p1) \<Rightarrow> Some (Inl (ClientError err), p1)
         | (Inr soa, p1) \<Rightarrow>
             (case send (GetWithContext_ids (client p1)) (GetRecordIds zone) p1 of
                (Inl err, p2) \<Rightarrow> Some (Inl (ClientError err), p2)
              | (Inr recordsIds, p2) \<Rightarrow>
                  (case errgroup (\<lambda>i st. Some (record_by_id supported zone i st)) recordsIds (p2, []) of
                     None \<Rightarrow> None
                   | Some (Some err, p3, _) \<Rightarrow> Some (Inl err, p3)
                   | Some (None, p3, ovhRecords) \<Rightarrow>
                       Some (Inr ovhRecords,
                             if UseCache p3
                             then cache_Add (zone @ ''#soa'') (soa\<lparr>soa_records := ovhRecords\<rparr>) p3
                             else p3))))"

text \<open>
  \<open>None\<close> is the panic of \<open>in.Answer[0]\<close> on an answer section without records. The
  question is asked for \<open>dns.Fqdn(zone)\<close> at the cached server, port 53.
\<close>

definition records ::
  "(string \<Rightarrow> bool) \<Rightarrow> string \<Rightarrow> OVHProvider \<Rightarrow> ((error + ovhRecord list) \<times> OVHProvider) option" where
  "records supported zone p =
     (if UseCache p then
        (case cacheInstance p (zone @ ''#soa'') of
           Some cachedSoa \<Rightarrow>
             (case send (dnsClient p)
                     (ExchangeSOA zone (TrimSuffix (Server cachedSoa) ''.'' @ '':53'')) p of
                (Inl err, p1) \<Rightarrow> records_from_api supported zone (invalidateCache zone p1)
              | (Inr answer, p1) \<Rightarrow>
                  (case answer of
                     [] \<Rightarrow> None
                   | SOA serial # _ \<Rightarrow>
                       if serial = Serial cachedSoa then Some (Inr (soa_records cachedSoa), p1)
                       else records_from_api supported zone (invalidateCache zone p1)
                   | OtherRR # _ \<Rightarrow> records_from_api supported zone (invalidateCache zone p1)))
         | None \<Rightarrow> records_from_api supported zone p)
      else records_from_api supported zone p)"

section \<open>Grouping: ovhGroupByNameAndType\<close>

text \<open>
  Modelled from the spec: \<open>endpoint.NewEndpointWithTTL\<close> is not in the files at hand. An
  Endpoint is the aggregate of a hostname, a type, a ttl and the targets of its group.
\<close>

definition NewEndpointWithTTL :: "string \<Rightarrow> string \<Rightarrow> int64 \<Rightarrow> string list \<Rightarrow> Endpoint" where
  "NewEndpointWithTTL dnsName recordType ttl targets =
     \<lparr>DNSName = dnsName, Targets = targets, RecordType = recordType, RecordTTL = ttl\<rparr>"

definition groupBy :: "'a ovhRecord_scheme \<Rightarrow> string" where
  "groupBy r = Zone r @ ''//'' @ SubDomain r @ ''//'' @ FieldType r"

text \<open>One round of the loop that fills \<open>groups\<close>.\<close>

definition group_add :: "ovhRecord \<Rightarrow> (string \<rightharpoonup> ovhRecord list) \<Rightarrow> (string \<rightharpoonup> ovhRecord list)" where
  "group_add r groups =
     (let groups' = (if groups (groupBy r) = None then groups(groupBy r \<mapsto> []) else groups)
      in groups'(groupBy r := map_option (\<lambda>g. g @ [r]) (groups' (groupBy r))))"

definition groups_of :: "ovhRecord list \<Rightarrow> (string \<rightharpoonup> ovhRecord list)" where
  "groups_of rs = fold group_add rs Map.empty"

text \<open>
  One round of the loop over the groups; \<open>None\<close> is the panic of \<open>records[0]\<close> on an
  empty group.
\<close>

definition group_endpoint :: "string \<times> ovhRecord list \<Rightarrow> Endpoint list \<Rightarrow> Endpoint list option" where
  "group_endpoint kv endpoints =
     (case snd kv of
        [] \<Rightarrow> None
      | r0 # _ \<Rightarrow>
          Some (endpoints @
                [NewEndpointWithTTL (TrimPrefix (SubDomain r0 @ ''.'' @ Zone r0) ''.'')
                   (FieldType r0) (TTL r0) (map Target (snd kv))]))"

text \<open>\<open>ks\<close> is the order of the loop over \<open>groups\<close>.\<close>

definition ovhGroupByNameAndType :: "string list \<Rightarrow> ovhRecord list \<Rightarrow> Endpoint list option" where
  "ovhGroupByNameAndType ks rs =
     fold_option group_endpoint (range_items (groups_of rs) ks) []"

section \<open>The constructor: NewOVHProvider\<close>

text \<open>
  \<open>ovh.NewEndpointClient\<close> and the DNS client belong to libraries; they are the arguments
  \<open>NewEndpointClient\<close> and \<open>newDnsClient\<close>. The limiter that \<open>ratelimit.New\<close> makes
  starts with no token taken. The second component of the result is the list of the calls
  sent to the store during construction.
\<close>

definition NewOVHProvider ::
  "(string \<Rightarrow> string + ovhClient) \<Rightarrow> (request list \<Rightarrow> request \<Rightarrow> string + RR list)
    \<Rightarrow> (string \<Rightarrow> bool) \<Rightarrow> string \<Rightarrow> int \<Rightarrow> bool \<Rightarrow> (error + OVHProvider) \<times> request list" where
  "NewOVHProvider NewEndpointClient newDnsClient zoneFilter endpoint apiRateLimit dryRun =
     (case NewEndpointClient endpoint of
        Inl err \<Rightarrow> (Inl (ClientError err), [])
      | Inr c \<Rightarrow>
          if dryRun then (Inl ErrNoDryRun, [])
          else (Inr \<lparr>client = c, apiRateLimiter = 0, domainFilter = zoneFilter, DryRun = dryRun,
                     UseCache = True, lastRunRecords = [], lastRunZones = [],
                     cacheInstance = Map.empty, dnsClient = newDnsClient, calls = []\<rparr>, []))"

section \<open>Notions used in the statements\<close>

subsection \<open>The plan of one group, in closed form\<close>

text \<open>
  \<open>changes_of key a changes\<close> are the changes of the group \<open>key\<close> with action \<open>a\<close>;
  \<open>group_plan\<close> is what one round of the loop over the groups appends to \<open>changes\<close>
  (lemma \<open>update_group_eq\<close> below).
\<close>

definition changes_of :: "string \<Rightarrow> int \<Rightarrow> ovhChange list \<Rightarrow> ovhChange list" where
  "changes_of key a changes = filter (\<lambda>c. record_key c = key \<and> Action c = a) changes"

definition group_plan :: "string \<Rightarrow> ovhRecord list \<Rightarrow> Endpoint \<Rightarrow> ovhChange list" where
  "group_plan zone pool endpointsNew =
     (let toInsert = filter (\<lambda>t. t \<notin> Target ` set pool) (Targets endpointsNew)
      in (case pool of [] \<Rightarrow> []
          | record # _ \<Rightarrow> map (\<lambda>t. to_change (record\<lparr>Target := t, TTL := update_ttl endpointsNew\<rparr>) ovhUpdate) toInsert)
         @ map (new_change ovhCreate endpointsNew zone) toInsert
         @ map (\<lambda>r. to_change r ovhDelete) pool)"

subsection \<open>The entry of the empty zone name in a partition\<close>

definition current :: "(string \<rightharpoonup> Changes) \<Rightarrow> Changes" where
  "current out = (case out '''' of None \<Rightarrow> no_changes | Some c \<Rightarrow> c)"

subsection \<open>The calls of a full fetch\<close>

text \<open>
  The calls that a full fetch of a zone sends, for a provider that uses the cache, after the
  calls \<open>history\<close>: the request of the SOA; if it is answered, the listing of the record
  ids; if that is answered, the request of every listed record by id.
\<close>

definition full_fetch_calls :: "ovhClient \<Rightarrow> string \<Rightarrow> request list \<Rightarrow> request list" where
  "full_fetch_calls store zone history =
     (case GetWithContext_soa store history (GetSoa zone) of
        Inl err \<Rightarrow> [GetSoa zone]
      | Inr soa \<Rightarrow>
          (case GetWithContext_ids store (history @ [GetSoa zone]) (GetRecordIds zone) of
             Inl err \<Rightarrow> [GetSoa zone, GetRecordIds zone]
           | Inr recordsIds \<Rightarrow>
               [GetSoa zone, GetRecordIds zone] @ map (GetRecord zone) recordsIds))"

subsection \<open>The groups of a record set\<close>

text \<open>
  The group of a record, the records of a group in the order of the record set, and the
  Endpoint that stands for a group: its hostname, type and ttl are those of the first record
  of the group, its targets those of all its records.
\<close>

definition group_of :: "'a ovhRecord_scheme \<Rightarrow> string \<times> string \<times> string" where
  "group_of r = (Zone r, SubDomain r, FieldType r)"

definition members :: "string \<times> string \<times> string \<Rightarrow> ovhRecord list \<Rightarrow> ovhRecord list" where
  "members g rs = filter (\<lambda>r. group_of r = g) rs"

definition endpoint_of_group :: "ovhRecord list \<Rightarrow> string \<times> string \<times> string \<Rightarrow> Endpoint" where
  "endpoint_of_group rs g =
     (case g of (zone, sub, type) \<Rightarrow>
        \<lparr>DNSName = TrimPrefix (sub @ ''.'' @ zone) ''.'',
         Targets = map Target (members g rs),
         RecordType = type,
         RecordTTL = (case members g rs of [] \<Rightarrow> 0 | r0 # _ \<Rightarrow> TTL r0)\<rparr>)"

section \<open>Concrete inputs\<close>

subsection \<open>Scenario A and records with equal values\<close>

text \<open>
  Scenario A of the spec: zone \<open>example.com\<close>, the records 10 and 11 of \<open>www\<close>, and the
  update of \<open>www.example.com\<close>/A to the targets 1.1.1.1 and 3.3.3.3. \<open>scenarioA_plan\<close> is
  the plan the code computes for it.
\<close>

definition scenarioA_r10 :: ovhRecord where
  "scenarioA_r10 = \<lparr>SubDomain = ''www'', TTL = 0, Target = ''1.1.1.1'', FieldType = ''A'', ID = 10, Zone = ''example.com''\<rparr>"

definition scenarioA_r11 :: ovhRecord where
  "scenarioA_r11 = \<lparr>SubDomain = ''www'', TTL = 0, Target = ''2.2.2.2'', FieldType = ''A'', ID = 11, Zone = ''example.com''\<rparr>"

definition scenarioA_old :: Endpoint where
  "scenarioA_old = \<lparr>DNSName = ''www.example.com'', Targets = [''1.1.1.1'', ''2.2.2.2''], RecordType = ''A'', RecordTTL = 0\<rparr>"

definition scenarioA_new :: Endpoint where
  "scenarioA_new = \<lparr>DNSName = ''www.example.com'', Targets = [''1.1.1.1'', ''3.3.3.3''], RecordType = ''A'', RecordTTL = 0\<rparr>"

definition scenarioA_plan :: "ovhChange list" where
  "scenarioA_plan =
     [\<lparr>SubDomain = ''www'', TTL = 0, Target = ''3.3.3.3'', FieldType = ''A'', ID = 10, Zone = ''example.com'', Action = ovhUpdate\<rparr>,
      \<lparr>SubDomain = ''www'', TTL = 0, Target = ''3.3.3.3'', FieldType = ''A'', ID = 0, Zone = ''example.com'', Action = ovhCreate\<rparr>,
      \<lparr>SubDomain = ''www'', TTL = 0, Target = ''1.1.1.1'', FieldType = ''A'', ID = 10, Zone = ''example.com'', Action = ovhDelete\<rparr>,
      \<lparr>SubDomain = ''www'', TTL = 0, Target = ''2.2.2.2'', FieldType = ''A'', ID = 11, Zone = ''example.com'', Action = ovhDelete\<rparr>]"

text \<open>
  Two records of the zone that agree on zone, subdomain, type and target, and a Delete
  endpoint for that target.
\<close>

definition twin_r10 :: ovhRecord where
  "twin_r10 = \<lparr>SubDomain = ''www'', TTL = 0, Target = ''1.1.1.1'', FieldType = ''A'', ID = 10, Zone = ''example.com''\<rparr>"

definition twin_r11 :: ovhRecord where
  "twin_r11 = \<lparr>SubDomain = ''www'', TTL = 0, Target = ''1.1.1.1'', FieldType = ''A'', ID = 11, Zone = ''example.com''\<rparr>"

definition twin_delete :: Endpoint where
  "twin_delete = \<lparr>DNSName = ''www.example.com'', Targets = [''1.1.1.1''], RecordType = ''A'', RecordTTL = 0\<rparr>"

subsection \<open>A provider with a cached zone\<close>

text \<open>
  A store that accepts every call, a store that answers every call with an error, a name
  server that answers with one SOA record of a given serial, and a provider that has run
  \<open>Records\<close> on the zone \<open>example.com\<close> of Scenario A and holds its snapshot, serial 42,
  in the cache.
\<close>

definition store_ok :: ovhClient where
  "store_ok =
     \<lparr>PostWithContext = (\<lambda>_ _. None), PutWithContext = (\<lambda>_ _. None),
      DeleteWithContext = (\<lambda>_ _. None),
      GetWithContext_soa = (\<lambda>_ _. Inr (''dns100.ovh.net.'', 43)),
      GetWithContext_ids = (\<lambda>_ _. Inr [10]),
      GetWithContext_record = (\<lambda>_ _. Inr scenarioA_r10)\<rparr>"

definition store_down :: ovhClient where
  "store_down =
     \<lparr>PostWithContext = (\<lambda>_ _. Some ''503''), PutWithContext = (\<lambda>_ _. Some ''503''),
      DeleteWithContext = (\<lambda>_ _. Some ''503''),
      GetWithContext_soa = (\<lambda>_ _. Inl ''503''),
      GetWithContext_ids = (\<lambda>_ _. Inl ''503''),
      GetWithContext_record = (\<lambda>_ _. Inl ''503'')\<rparr>"

definition dns_serial :: "uint32 \<Rightarrow> request list \<Rightarrow> request \<Rightarrow> string + RR list" where
  "dns_serial serial history question = Inr [SOA serial]"

definition cached_soa :: ovhSoa where
  "cached_soa = \<lparr>Server = ''dns100.ovh.net.'', Serial = 42, soa_records = [scenarioA_r10, scenarioA_r11]\<rparr>"

definition provider_with ::
  "ovhClient \<Rightarrow> (request list \<Rightarrow> request \<Rightarrow> string + RR list) \<Rightarrow> OVHProvider" where
  "provider_with store dns =
     \<lparr>client = store, apiRateLimiter = 0, domainFilter = (\<lambda>_. True), DryRun = False,
      UseCache = True, lastRunRecords = [scenarioA_r10, scenarioA_r11],
      lastRunZones = [''example.com''],
      cacheInstance = [''example.com#soa'' \<mapsto> cached_soa],
      dnsClient = dns, calls = []\<rparr>"

definition delete_www :: "string \<Rightarrow> Changes" where
  "delete_www target =
     \<lparr>Create = [], UpdateOld = [], UpdateNew = [],
      Delete = [\<lparr>DNSName = ''www.example.com'', Targets = [target], RecordType = ''A'', RecordTTL = 0\<rparr>]\<rparr>"

definition create_www :: "string \<Rightarrow> Changes" where
  "create_www target =
     \<lparr>Create = [\<lparr>DNSName = ''www.example.com'', Targets = [target], RecordType = ''A'', RecordTTL = 0\<rparr>],
      UpdateOld = [], UpdateNew = [], Delete = []\<rparr>"

definition no_groups :: "string \<Rightarrow> string list" where
  "no_groups zone = []"

subsection \<open>Client factories\<close>

definition no_client :: "string \<Rightarrow> string + ovhClient" where
  "no_client endpoint = Inl ''unknown endpoint''"

definition ovh_eu_client :: "string \<Rightarrow> string + ovhClient" where
  "ovh_eu_client endpoint = Inr store_ok"

definition any_zone :: "string \<Rightarrow> bool" where
  "any_zone zone = True"

subsection \<open>Name servers and record types\<close>

definition dns_no_answer :: "request list \<Rightarrow> request \<Rightarrow> string + RR list" where
  "dns_no_answer history question = Inr []"

definition supported_type :: "string \<Rightarrow> bool" where
  "supported_type t = (t = ''A'' \<or> t = ''CNAME'')"

definition soa_question :: request where
  "soa_question = ExchangeSOA ''example.com'' ''dns100.ovh.net:53''"

subsection \<open>Two groups with one grouping key\<close>

definition slash_sub :: ovhRecord where
  "slash_sub = \<lparr>SubDomain = ''a//b'', TTL = 0, Target = ''1.1.1.1'', FieldType = ''A'', ID = 1, Zone = ''example.com''\<rparr>"

definition slash_zone :: ovhRecord where
  "slash_zone = \<lparr>SubDomain = ''b'', TTL = 0, Target = ''2.2.2.2'', FieldType = ''A'', ID = 2, Zone = ''example.com//a''\<rparr>"

subsection \<open>One record and one new target\<close>

text \<open>
  The update of \<open>www.example.com\<close>/A from the target 1.1.1.1 to the target 2.2.2.2 in a
  zone that holds record 10 for it, and the plan the code computes.
\<close>

definition retarget_old :: Endpoint where
  "retarget_old = \<lparr>DNSName = ''www.example.com'', Targets = [''1.1.1.1''], RecordType = ''A'', RecordTTL = 0\<rparr>"

definition retarget_new :: Endpoint where
  "retarget_new = \<lparr>DNSName = ''www.example.com'', Targets = [''2.2.2.2''], RecordType = ''A'', RecordTTL = 0\<rparr>"

definition retarget_plan :: "ovhChange list" where
  "retarget_plan =
     [\<lparr>SubDomain = ''www'', TTL = 0, Target = ''2.2.2.2'', FieldType = ''A'', ID = 10, Zone = ''example.com'', Action = ovhUpdate\<rparr>,
      \<lparr>SubDomain = ''www'', TTL = 0, Target = ''2.2.2.2'', FieldType = ''A'', ID = 0, Zone = ''example.com'', Action = ovhCreate\<rparr>,
      \<lparr>SubDomain = ''www'', TTL = 0, Target = ''1.1.1.1'', FieldType = ''A'', ID = 10, Zone = ''example.com'', Action = ovhDelete\<rparr>]"

section \<open>Properties of the Create/Delete path\<close>

lemma slices_Delete_empty_range: "i \<le> length s \<Longrightarrow> slices_Delete s i i = Some s"
  by (simp add: slices_Delete_def)

lemma first_index_Some:
  "first_index P xs n = Some (i, x) \<Longrightarrow> n \<le> i \<and> i < n + length xs \<and> x \<in> set xs \<and> P x"
  by (induction xs arbitrary: n) (fastforce split: if_splits)+

lemma first_index_None: "(first_index P xs n = None) = (\<forall>x \<in> set xs. \<not> P x)"
  by (induction xs arbitrary: n) auto

lemma delete_ids_noop: "\<forall>i \<in> set ids. i \<le> length s \<Longrightarrow> delete_ids s ids = Some s"
  unfolding delete_ids_def
  by (induction ids) (simp_all add: slices_Delete_empty_range)

lemma create_delete_target_ids:
  assumes "\<forall>i \<in> set (snd st). i < length existingRecords"
  shows "\<forall>i \<in> set (snd (create_delete_target action zone existingRecords e target st)). i < length existingRecords"
  using assms
  by (auto simp: create_delete_target_def Let_def split: option.splits dest: first_index_Some)

lemma create_delete_targets_ids:
  "\<forall>i \<in> set (snd st). i < length existingRecords \<Longrightarrow>
   \<forall>i \<in> set (snd (fold (create_delete_target action zone existingRecords e) ts st)). i < length existingRecords"
proof (induction ts arbitrary: st)
  case Nil then show ?case by simp
next
  case (Cons t ts)
  show ?case using Cons.IH[OF create_delete_target_ids[OF Cons.prems]] by simp
qed

lemma create_delete_endpoints_ids:
  "\<forall>i \<in> set (snd st). i < length existingRecords \<Longrightarrow>
   \<forall>i \<in> set (snd (fold (\<lambda>e. fold (create_delete_target action zone existingRecords e) (Targets e)) es st)). i < length existingRecords"
proof (induction es arbitrary: st)
  case Nil then show ?case by simp
next
  case (Cons e es)
  show ?case using Cons.IH[OF create_delete_targets_ids[OF Cons.prems]] by simp
qed

lemma newOvhChangeCreateDelete_total:
  "newOvhChangeCreateDelete action endpoints zone existingRecords =
     Some (fst (create_delete_loop action zone existingRecords endpoints), existingRecords)"
proof -
  have "\<forall>i \<in> set (snd (create_delete_loop action zone existingRecords endpoints)). i < length existingRecords"
    unfolding create_delete_loop_def by (rule create_delete_endpoints_ids) simp
  then have "delete_ids existingRecords (snd (create_delete_loop action zone existingRecords endpoints)) = Some existingRecords"
    by (intro delete_ids_noop) auto
  then show ?thesis by (simp add: newOvhChangeCreateDelete_def Let_def)
qed

text \<open>
  C1. The spec has every Delete target consume the record it matched, so that two Delete
  endpoints with the same (zone, subdomain, type, target) get two distinct records. The
  code searches the unchanged \<open>existingRecords\<close> for every target and removes the empty
  range \<open>[i:i]\<close> afterwards: with the twin records 10 and 11 and two Delete endpoints for
  their target, both Delete changes carry the id 10 and both records are still in the list
  that is returned.
\<close>

theorem delete_matches_same_record_twice:
  "newOvhChangeCreateDelete ovhDelete [twin_delete, twin_delete] ''example.com'' [twin_r10, twin_r11]
   = Some ([to_change twin_r10 ovhDelete, to_change twin_r10 ovhDelete], [twin_r10, twin_r11])"
  by (simp add: newOvhChangeCreateDelete_def create_delete_loop_def create_delete_target_def
      new_change_def same_record_def delete_ids_def slices_Delete_def twin_delete_def twin_r10_def
      twin_r11_def TrimSuffix_def HasSuffix_def IsConfigured_def ovhDefaultTTL_def ovhDelete_def
      to_change_def)

section \<open>Properties of the Update path\<close>

lemma match_target_eq:
  "match_target t (pool, ins) = Some (pool, if t \<in> Target ` set pool then ins else ins @ [t])"
proof (cases "first_index (\<lambda>record. t = Target record) pool 0")
  case None
  then have "t \<notin> Target ` set pool" by (auto simp: first_index_None)
  with None show ?thesis by (simp add: match_target_def)
next
  case (Some a)
  obtain i x where a: "a = (i, x)" by (cases a)
  from first_index_Some[OF Some[unfolded a]] have "i \<le> length pool" "x \<in> set pool" "t = Target x"
    by auto
  then show ?thesis using Some a by (auto simp: match_target_def slices_Delete_empty_range)
qed

lemma match_targets_eq:
  "fold_option match_target ts (pool, ins)
   = Some (pool, ins @ filter (\<lambda>t. t \<notin> Target ` set pool) ts)"
  by (induction ts arbitrary: ins) (simp_all add: match_target_eq)

lemma pair_targets_Nil: "pair_targets e its ([], changes, del) = Some ([], changes, del)"
  by (cases its) auto

lemma pair_targets_Cons:
  "pair_targets e its (record # pool, changes, del)
   = Some (record # pool,
           changes @ map (\<lambda>(i, t). to_change (record\<lparr>Target := t, TTL := update_ttl e\<rparr>) ovhUpdate) its,
           del @ map fst its)"
  by (induction its arbitrary: changes del) (auto simp: slices_Delete_def)

lemma map_enumerate_snd: "map (\<lambda>(i, t). f t) (enumerate n xs) = map f xs"
  by (induction xs arbitrary: n) auto

lemma update_group_eq:
  assumes "newm key = Some e"
  shows "update_group zone recs newm key changes = Some (changes @ group_plan zone (recs key) e)"
proof -
  define toInsert where "toInsert = filter (\<lambda>t. t \<notin> Target ` set (recs key)) (Targets e)"
  have m: "fold_option match_target (Targets e) (recs key, []) = Some (recs key, toInsert)"
    by (simp add: match_targets_eq toInsert_def)
  have d: "delete_ids toInsert (map fst (enumerate 0 toInsert)) = Some toInsert"
    by (rule delete_ids_noop) simp
  have d0: "delete_ids toInsert [] = Some toInsert"
    by (simp add: delete_ids_def)
  show ?thesis
  proof (cases "recs key")
    case Nil
    have "pair_targets e (enumerate 0 toInsert) (recs key, changes, [])
          = Some ([], changes, [])"
      by (simp add: Nil pair_targets_Nil)
    with assms m d0 Nil show ?thesis
      by (simp add: update_group_def group_plan_def toInsert_def)
  next
    case (Cons r0 pool)
    have "pair_targets e (enumerate 0 toInsert) (recs key, changes, [])
          = Some (r0 # pool,
                  changes @ map (\<lambda>t. to_change (r0\<lparr>Target := t, TTL := update_ttl e\<rparr>) ovhUpdate) toInsert,
                  map fst (enumerate 0 toInsert))"
      by (simp add: Cons pair_targets_Cons map_enumerate_snd)
    with assms m d Cons show ?thesis
      by (simp add: update_group_def group_plan_def toInsert_def)
  qed
qed

lemma update_group_None: "newm key = None \<Longrightarrow> update_group zone recs newm key changes = None"
  by (simp add: update_group_def)

lemma fold_update_group:
  "fold_option (update_group zone recs newm) ks acc = Some out \<Longrightarrow>
   (\<forall>k \<in> set ks. newm k \<noteq> None) \<and>
   out = acc @ concat (map (\<lambda>k. group_plan zone (recs k) (the (newm k))) ks)"
proof (induction ks arbitrary: acc)
  case Nil then show ?case by simp
next
  case (Cons k ks)
  show ?case
  proof (cases "newm k")
    case None
    with Cons.prems show ?thesis by (simp add: update_group_None)
  next
    case (Some e)
    with Cons.prems have "fold_option (update_group zone recs newm) ks (acc @ group_plan zone (recs k) e) = Some out"
      by (simp add: update_group_eq)
    from Cons.IH[OF this] Some show ?thesis by simp
  qed
qed

lemmas planner_defs =
  newOvhChangeUpdate_def range_keys_def endpointByTypeAndName_def endpoint_key_def
  oldRecordsInZone_def record_key_def update_group_def match_target_def update_ttl_def
  new_change_def delete_ids_def slices_Delete_def TrimSuffix_def HasSuffix_def
  IsConfigured_def ovhDefaultTTL_def to_change_def

lemma scenarioA_eval:
  "newOvhChangeUpdate [''A//www''] [''A//www''] [scenarioA_old] [scenarioA_new] ''example.com''
     [scenarioA_r10, scenarioA_r11] = Some scenarioA_plan"
  by (simp add: planner_defs scenarioA_old_def scenarioA_new_def scenarioA_r10_def
      scenarioA_r11_def scenarioA_plan_def)

lemma scenarioA_order:
  "range_order (endpointByTypeAndName ''example.com'' [scenarioA_old]) [''A//www'']"
  by (simp add: range_order_def endpointByTypeAndName_def endpoint_key_def scenarioA_old_def
      TrimSuffix_def HasSuffix_def)

text \<open>
  C3. For Scenario A the spec expects one Update of record 11 to the target 3.3.3.3 and
  nothing else. The code removes the empty ranges \<open>[toDelete:toDelete]\<close> and \<open>[0:0]\<close>,
  so no record leaves the pool and no target leaves the list to insert: it plans an Update
  of record 10 to 3.3.3.3, a Create of 3.3.3.3, and the Delete of both records 10 and 11.
\<close>

theorem scenarioA_plan_has_four_changes:
  "range_order (endpointByTypeAndName ''example.com'' [scenarioA_old]) [''A//www'']
   \<and> newOvhChangeUpdate [''A//www''] [''A//www''] [scenarioA_old] [scenarioA_new] ''example.com''
        [scenarioA_r10, scenarioA_r11]
      = Some [to_change (scenarioA_r10\<lparr>Target := ''3.3.3.3''\<rparr>) ovhUpdate,
              new_change ovhCreate scenarioA_new ''example.com'' ''3.3.3.3'',
              to_change scenarioA_r10 ovhDelete,
              to_change scenarioA_r11 ovhDelete]"
  using scenarioA_eval scenarioA_order
  by (simp add: scenarioA_plan_def to_change_def new_change_def scenarioA_r10_def scenarioA_r11_def
      scenarioA_new_def TrimSuffix_def HasSuffix_def IsConfigured_def ovhDefaultTTL_def)

text \<open>
  C2. For a group with one existing record and one desired target the law of the spec gives
  one Update and neither a Create nor a Delete, the record being touched once. The code
  removes the empty ranges \<open>[toDelete:toDelete]\<close>, \<open>[0:0]\<close> and \<open>[i:i]\<close>, so the record
  stays in the pool and the target in the list to insert: for record 10 with target 1.1.1.1
  and the desired target 2.2.2.2 it plans the Update of record 10 to 2.2.2.2, the Create of
  2.2.2.2 and the Delete of record 10.
\<close>

theorem retarget_plans_update_create_delete:
  "range_order (endpointByTypeAndName ''example.com'' [retarget_old]) [''A//www'']
   \<and> endpointByTypeAndName ''example.com'' [retarget_new] ''A//www'' = Some retarget_new
   \<and> length (filter (\<lambda>r. ''A//www'' = record_key r) [scenarioA_r10]) = 1
   \<and> length (Targets retarget_new) = 1
   \<and> newOvhChangeUpdate [''A//www''] [''A//www''] [retarget_old] [retarget_new] ''example.com''
        [scenarioA_r10] = Some retarget_plan
   \<and> length (changes_of ''A//www'' ovhUpdate retarget_plan) = 1
   \<and> length (changes_of ''A//www'' ovhCreate retarget_plan) = 1
   \<and> length (changes_of ''A//www'' ovhDelete retarget_plan) = 1
   \<and> map ID (changes_of ''A//www'' ovhUpdate retarget_plan) = [10]
   \<and> map ID (changes_of ''A//www'' ovhDelete retarget_plan) = [10]"
  by (simp add: planner_defs range_order_def changes_of_def retarget_old_def retarget_new_def
      retarget_plan_def scenarioA_r10_def ovhUpdate_def ovhCreate_def ovhDelete_def)

section \<open>Properties of the executor\<close>

lemma first_error_None: "(first_error errs = None) = (\<forall>e \<in> set errs. e = None)"
  by (induction errs rule: first_error.induct) auto

lemma first_error_Some: "first_error errs = Some e \<Longrightarrow> Some e \<in> set errs"
  by (induction errs rule: first_error.induct) auto

lemma change_calls:
  "\<exists>sent. calls (snd (change c p)) = calls p @ sent \<and> (\<forall>z. PostRefresh z \<notin> set sent)"
  by (auto simp: change_def Let_def Take_def send_def split: prod.splits)

lemma change_tokens: "apiRateLimiter (snd (change c p)) = apiRateLimiter p + 1"
  by (auto simp: change_def Let_def Take_def send_def split: prod.splits)

lemma run_all_change:
  "\<exists>errs p1 sent. run_all (\<lambda>c q. Some (change c q)) cs p = Some (errs, p1)
     \<and> calls p1 = calls p @ sent \<and> (\<forall>z. PostRefresh z \<notin> set sent)
     \<and> apiRateLimiter p1 = apiRateLimiter p + length cs"
proof (induction cs arbitrary: p)
  case Nil
  then show ?case by simp
next
  case (Cons c cs)
  obtain err q where q: "change c p = (err, q)" by (cases "change c p")
  from change_calls[of c p] q obtain sent1 where
    s1: "calls q = calls p @ sent1" "\<forall>z. PostRefresh z \<notin> set sent1" by auto
  from change_tokens[of c p] q have t1: "apiRateLimiter q = apiRateLimiter p + 1" by simp
  from Cons.IH[of q] obtain errs p1 sent where
    r: "run_all (\<lambda>c q. Some (change c q)) cs q = Some (errs, p1)"
    and s: "calls p1 = calls q @ sent" "\<forall>z. PostRefresh z \<notin> set sent"
    and t: "apiRateLimiter p1 = apiRateLimiter q + length cs" by blast
  have "run_all (\<lambda>c q. Some (change c q)) (c # cs) p = Some (err # errs, p1)"
    using q r by simp
  moreover have "calls p1 = calls p @ (sent1 @ sent)" using s1 s by simp
  moreover have "\<forall>z. PostRefresh z \<notin> set (sent1 @ sent)" using s1 s by simp
  moreover have "apiRateLimiter p1 = apiRateLimiter p + length (c # cs)" using t1 t by simp
  ultimately show ?case by blast
qed

text \<open>
  C6. Let \<open>cs\<close> be the changes planned for a zone and \<open>errs\<close> the results of
  dispatching them. If every change succeeds, \<open>handleSingleZoneUpdate\<close> leaves the zone
  without a cache entry and sends the refresh call of the zone, once and after the calls of
  the changes, taking one token for each change and one more for the refresh. If a change
  fails, it returns an error, leaves the zone without a cache entry and sends no refresh
  call, the tokens taken being those of the changes.
\<close>

theorem zone_refresh_iff_all_changes_succeed:
  assumes plan: "allChanges ks1 ks2 zoneName existingRecords changes = Some cs"
    and run: "run_all (\<lambda>c q. Some (change c q)) cs p = Some (errs, p1)"
  shows "((\<forall>e \<in> set errs. e = None) \<longrightarrow>
            (\<exists>err p' sent.
               handleSingleZoneUpdate ks1 ks2 zoneName existingRecords changes p = Some (err, p')
               \<and> cacheInstance p' (zoneName @ ''#soa'') = None
               \<and> calls p' = calls p @ sent @ [PostRefresh zoneName]
               \<and> PostRefresh zoneName \<notin> set sent
               \<and> apiRateLimiter p' = apiRateLimiter p + length cs + 1))
       \<and> ((\<exists>e \<in> set errs. e \<noteq> None) \<longrightarrow>
            (\<exists>err p' sent.
               handleSingleZoneUpdate ks1 ks2 zoneName existingRecords changes p = Some (Some err, p')
               \<and> cacheInstance p' (zoneName @ ''#soa'') = None
               \<and> calls p' = calls p @ sent
               \<and> PostRefresh zoneName \<notin> set sent
               \<and> apiRateLimiter p' = apiRateLimiter p + length cs))"
proof -
  from run_all_change[of cs p] run obtain sent where
    s: "calls p1 = calls p @ sent" "\<forall>z. PostRefresh z \<notin> set sent"
    and t: "apiRateLimiter p1 = apiRateLimiter p + length cs" by auto
  have h: "handleSingleZoneUpdate ks1 ks2 zoneName existingRecords changes p
           = Some (if first_error errs = None then refresh zoneName p1
                   else (first_error errs, invalidateCache zoneName p1))"
    using plan run by (simp add: handleSingleZoneUpdate_def errgroup_def)
  show ?thesis
  proof (intro conjI impI)
    assume "\<forall>e \<in> set errs. e = None"
    then have "first_error errs = None" by (simp add: first_error_None)
    with h have h': "handleSingleZoneUpdate ks1 ks2 zoneName existingRecords changes p
           = Some (refresh zoneName p1)" by simp
    obtain err p' where r: "refresh zoneName p1 = (err, p')" by (cases "refresh zoneName p1")
    then have "cacheInstance p' (zoneName @ ''#soa'') = None"
      "calls p' = calls p1 @ [PostRefresh zoneName]"
      "apiRateLimiter p' = apiRateLimiter p1 + 1"
      by (auto simp: refresh_def Let_def Take_def send_def invalidateCache_def)
    with h' r s t show "\<exists>err p' sent.
               handleSingleZoneUpdate ks1 ks2 zoneName existingRecords changes p = Some (err, p')
               \<and> cacheInstance p' (zoneName @ ''#soa'') = None
               \<and> calls p' = calls p @ sent @ [PostRefresh zoneName]
               \<and> PostRefresh zoneName \<notin> set sent
               \<and> apiRateLimiter p' = apiRateLimiter p + length cs + 1"
      by auto
  next
    assume "\<exists>e \<in> set errs. e \<noteq> None"
    then have "first_error errs \<noteq> None" by (simp add: first_error_None)
    then obtain err where e: "first_error errs = Some err" by auto
    with h have "handleSingleZoneUpdate ks1 ks2 zoneName existingRecords changes p
           = Some (Some err, invalidateCache zoneName p1)" by simp
    moreover have "cacheInstance (invalidateCache zoneName p1) (zoneName @ ''#soa'') = None"
      "calls (invalidateCache zoneName p1) = calls p1"
      "apiRateLimiter (invalidateCache zoneName p1) = apiRateLimiter p1"
      by (simp_all add: invalidateCache_def)
    ultimately show "\<exists>err p' sent.
               handleSingleZoneUpdate ks1 ks2 zoneName existingRecords changes p = Some (Some err, p')
               \<and> cacheInstance p' (zoneName @ ''#soa'') = None
               \<and> calls p' = calls p @ sent
               \<and> PostRefresh zoneName \<notin> set sent
               \<and> apiRateLimiter p' = apiRateLimiter p + length cs"
      using s t by auto
  qed
qed

lemma delete_www_plan:
  "allChanges [] [] ''example.com'' [scenarioA_r10, scenarioA_r11] (delete_www ''1.1.1.1'')
   = Some [to_change scenarioA_r10 ovhDelete]"
  by (simp add: allChanges_def newOvhChangeCreateDelete_def create_delete_loop_def
      create_delete_target_def new_change_def same_record_def delete_ids_def slices_Delete_def
      newOvhChangeUpdate_def range_keys_def endpointByTypeAndName_def
      delete_www_def scenarioA_r10_def scenarioA_r11_def TrimSuffix_def HasSuffix_def
      IsConfigured_def ovhDefaultTTL_def ovhDelete_def ovhCreate_def to_change_def)

lemma delete_www_run_ok:
  "\<exists>p1. run_all (\<lambda>c q. Some (change c q)) [to_change scenarioA_r10 ovhDelete]
           (provider_with store_ok (dns_serial 42)) = Some ([None], p1)"
  by (simp add: change_def Take_def send_def provider_with_def store_ok_def to_change_def
      scenarioA_r10_def ovhDelete_def ovhCreate_def ovhUpdate_def)

lemma delete_www_run_down:
  "\<exists>p1. run_all (\<lambda>c q. Some (change c q)) [to_change scenarioA_r10 ovhDelete]
           (provider_with store_down (dns_serial 42)) = Some ([Some (ClientError ''503'')], p1)"
  by (simp add: change_def Take_def send_def provider_with_def store_down_def to_change_def
      scenarioA_r10_def ovhDelete_def ovhCreate_def ovhUpdate_def)

theorem zone_refresh_witness:
  "allChanges [] [] ''example.com'' [scenarioA_r10, scenarioA_r11] (delete_www ''1.1.1.1'')
     = Some [to_change scenarioA_r10 ovhDelete]
   \<and> (\<exists>p1. run_all (\<lambda>c q. Some (change c q)) [to_change scenarioA_r10 ovhDelete]
           (provider_with store_ok (dns_serial 42)) = Some ([None], p1))
   \<and> (\<exists>err p'.
         handleSingleZoneUpdate [] [] ''example.com'' [scenarioA_r10, scenarioA_r11]
           (delete_www ''1.1.1.1'') (provider_with store_ok (dns_serial 42)) = Some (err, p')
         \<and> cacheInstance p' ''example.com#soa'' = None
         \<and> calls p' = [DeleteRecord ''example.com'' 10, PostRefresh ''example.com'']
         \<and> apiRateLimiter p' = 2)
   \<and> (\<exists>p1. run_all (\<lambda>c q. Some (change c q)) [to_change scenarioA_r10 ovhDelete]
           (provider_with store_down (dns_serial 42)) = Some ([Some (ClientError ''503'')], p1))
   \<and> (\<exists>err p'.
         handleSingleZoneUpdate [] [] ''example.com'' [scenarioA_r10, scenarioA_r11]
           (delete_www ''1.1.1.1'') (provider_with store_down (dns_serial 42)) = Some (Some err, p')
         \<and> cacheInstance p' ''example.com#soa'' = None
         \<and> calls p' = [DeleteRecord ''example.com'' 10]
         \<and> apiRateLimiter p' = 1)"
proof -
  note plan = delete_www_plan
  from delete_www_run_ok obtain p1 where
    ok: "run_all (\<lambda>c q. Some (change c q)) [to_change scenarioA_r10 ovhDelete]
           (provider_with store_ok (dns_serial 42)) = Some ([None], p1)" ..
  from delete_www_run_down obtain p2 where
    down: "run_all (\<lambda>c q. Some (change c q)) [to_change scenarioA_r10 ovhDelete]
           (provider_with store_down (dns_serial 42)) = Some ([Some (ClientError ''503'')], p2)" ..
  from zone_refresh_iff_all_changes_succeed[OF plan ok]
  obtain err p' sent where a:
    "handleSingleZoneUpdate [] [] ''example.com'' [scenarioA_r10, scenarioA_r11]
       (delete_www ''1.1.1.1'') (provider_with store_ok (dns_serial 42)) = Some (err, p')"
    "cacheInstance p' (''example.com'' @ ''#soa'') = None"
    "calls p' = calls (provider_with store_ok (dns_serial 42)) @ sent @ [PostRefresh ''example.com'']"
    "apiRateLimiter p' = apiRateLimiter (provider_with store_ok (dns_serial 42)) + length [to_change scenarioA_r10 ovhDelete] + 1"
    by auto
  from zone_refresh_iff_all_changes_succeed[OF plan down]
  obtain err2 p2' sent2 where b:
    "handleSingleZoneUpdate [] [] ''example.com'' [scenarioA_r10, scenarioA_r11]
       (delete_www ''1.1.1.1'') (provider_with store_down (dns_serial 42)) = Some (Some err2, p2')"
    "cacheInstance p2' (''example.com'' @ ''#soa'') = None"
    "calls p2' = calls (provider_with store_down (dns_serial 42)) @ sent2"
    "apiRateLimiter p2' = apiRateLimiter (provider_with store_down (dns_serial 42)) + length [to_change scenarioA_r10 ovhDelete]"
    by auto
  have ea: "handleSingleZoneUpdate [] [] ''example.com'' [scenarioA_r10, scenarioA_r11]
       (delete_www ''1.1.1.1'') (provider_with store_ok (dns_serial 42)) = Some (err, p')
       \<Longrightarrow> calls p' = [DeleteRecord ''example.com'' 10, PostRefresh ''example.com'']"
    unfolding handleSingleZoneUpdate_def delete_www_plan
    by (auto simp: errgroup_def refresh_def
        Take_def send_def invalidateCache_def change_def provider_with_def store_ok_def to_change_def
        scenarioA_r10_def ovhDelete_def ovhCreate_def ovhUpdate_def)
  have eb: "handleSingleZoneUpdate [] [] ''example.com'' [scenarioA_r10, scenarioA_r11]
       (delete_www ''1.1.1.1'') (provider_with store_down (dns_serial 42)) = Some (Some err2, p2')
       \<Longrightarrow> calls p2' = [DeleteRecord ''example.com'' 10]"
    unfolding handleSingleZoneUpdate_def delete_www_plan
    by (auto simp: errgroup_def refresh_def
        Take_def send_def invalidateCache_def change_def provider_with_def store_down_def to_change_def
        scenarioA_r10_def ovhDelete_def ovhCreate_def ovhUpdate_def)
  from a ea have a': "\<exists>err p'.
         handleSingleZoneUpdate [] [] ''example.com'' [scenarioA_r10, scenarioA_r11]
           (delete_www ''1.1.1.1'') (provider_with store_ok (dns_serial 42)) = Some (err, p')
         \<and> cacheInstance p' ''example.com#soa'' = None
         \<and> calls p' = [DeleteRecord ''example.com'' 10, PostRefresh ''example.com'']
         \<and> apiRateLimiter p' = 2"
    by (auto simp: provider_with_def)
  from b eb have b': "\<exists>err p'.
         handleSingleZoneUpdate [] [] ''example.com'' [scenarioA_r10, scenarioA_r11]
           (delete_www ''1.1.1.1'') (provider_with store_down (dns_serial 42)) = Some (Some err, p')
         \<and> cacheInstance p' ''example.com#soa'' = None
         \<and> calls p' = [DeleteRecord ''example.com'' 10]
         \<and> apiRateLimiter p' = 1"
    by (auto simp: provider_with_def)
  from plan delete_www_run_ok delete_www_run_down a' b' show ?thesis by blast
qed

lemma change_unmatched:
  "(Action c = ovhUpdate \<or> Action c = ovhDelete) \<Longrightarrow> ID c = 0 \<Longrightarrow>
   change c p = (Some ErrRecordToMutateNotFound, Take p)"
  by (auto simp: change_def Let_def ovhUpdate_def ovhDelete_def ovhCreate_def)

lemma change_create:
  "Action c = ovhCreate \<Longrightarrow> fst (change c p) \<noteq> Some ErrRecordToMutateNotFound"
  by (auto simp: change_def Let_def send_def split: prod.splits)

lemma ApplyChanges_result:
  "ApplyChanges zs order1 order2 changes q =
     (case run_all (\<lambda>(zoneName, changes).
                handleSingleZoneUpdate (order1 zoneName) (order2 zoneName) zoneName
                  (lastRunRecords q) changes)
             (range_items (planChangesByZoneName (lastRunZones q) changes) zs) q of
        None \<Rightarrow> None
      | Some (zerrs, q1) \<Rightarrow>
          Some (map_option SoftError (first_error zerrs),
                q1\<lparr>lastRunRecords := [], lastRunZones := []\<rparr>))"
  by (simp add: ApplyChanges_def errgroup_def Let_def split: option.splits)

lemma create_delete_target_create_id:
  assumes "\<forall>c \<in> set (fst st). Action c = ovhCreate \<longrightarrow> ID c = 0"
  shows "\<forall>c \<in> set (fst (create_delete_target action zone existingRecords e target st)).
           Action c = ovhCreate \<longrightarrow> ID c = 0"
  using assms
  by (auto simp: create_delete_target_def Let_def new_change_def ovhCreate_def ovhDelete_def
      split: option.splits)

lemma create_delete_targets_create_id:
  "\<forall>c \<in> set (fst st). Action c = ovhCreate \<longrightarrow> ID c = 0 \<Longrightarrow>
   \<forall>c \<in> set (fst (fold (create_delete_target action zone existingRecords e) ts st)).
     Action c = ovhCreate \<longrightarrow> ID c = 0"
proof (induction ts arbitrary: st)
  case Nil
  then show ?case by simp
next
  case (Cons t ts)
  show ?case using Cons.IH[OF create_delete_target_create_id[OF Cons.prems]] by simp
qed

lemma create_delete_loop_create_id:
  "\<forall>c \<in> set (fst st). Action c = ovhCreate \<longrightarrow> ID c = 0 \<Longrightarrow>
   \<forall>c \<in> set (fst (fold (\<lambda>e. fold (create_delete_target action zone existingRecords e) (Targets e))
                        es st)).
     Action c = ovhCreate \<longrightarrow> ID c = 0"
proof (induction es arbitrary: st)
  case Nil
  then show ?case by simp
next
  case (Cons e es)
  show ?case using Cons.IH[OF create_delete_targets_create_id[OF Cons.prems]] by simp
qed

lemma newOvhChangeCreateDelete_create_id:
  assumes "newOvhChangeCreateDelete action endpoints zone existingRecords = Some (cs, rs)"
  shows "\<forall>c \<in> set cs. Action c = ovhCreate \<longrightarrow> ID c = 0"
proof -
  from assms have "cs = fst (create_delete_loop action zone existingRecords endpoints)"
    by (auto simp: newOvhChangeCreateDelete_total)
  then show ?thesis
    unfolding create_delete_loop_def
    using create_delete_loop_create_id[of "([], [])" action zone existingRecords endpoints]
    by simp
qed

lemma group_plan_create_id:
  "\<forall>c \<in> set (group_plan zone pool e). Action c = ovhCreate \<longrightarrow> ID c = 0"
  by (auto simp: group_plan_def to_change_def new_change_def ovhCreate_def ovhUpdate_def
      ovhDelete_def split: list.splits)

lemma newOvhChangeUpdate_create_id:
  assumes "newOvhChangeUpdate ks1 ks2 endpointsOld endpointsNew zone existingRecords = Some cs"
  shows "\<forall>c \<in> set cs. Action c = ovhCreate \<longrightarrow> ID c = 0"
proof -
  from assms obtain recs newm ks where
    "fold_option (update_group zone recs newm) ks [] = Some cs"
    by (auto simp: newOvhChangeUpdate_def Let_def)
  from fold_update_group[OF this]
  have "cs = concat (map (\<lambda>k. group_plan zone (recs k) (the (newm k))) ks)" by simp
  then show ?thesis using group_plan_create_id by auto
qed

lemma allChanges_create_id:
  assumes "allChanges ks1 ks2 zoneName existingRecords changes = Some cs"
  shows "\<forall>c \<in> set cs. Action c = ovhCreate \<longrightarrow> ID c = 0"
proof -
  from assms obtain created rs1 deleted rs2 updated where
    c: "newOvhChangeCreateDelete ovhCreate (Create changes) zoneName existingRecords = Some (created, rs1)"
    and d: "newOvhChangeCreateDelete ovhDelete (Delete changes) zoneName rs1 = Some (deleted, rs2)"
    and u: "newOvhChangeUpdate ks1 ks2 (UpdateOld changes) (UpdateNew changes) zoneName rs2 = Some updated"
    and cs: "cs = created @ deleted @ updated"
    by (auto simp: allChanges_def split: option.splits)
  from newOvhChangeCreateDelete_create_id[OF c] newOvhChangeCreateDelete_create_id[OF d]
    newOvhChangeUpdate_create_id[OF u] cs
  show ?thesis by auto
qed

lemma delete_www_zones:
  "range_items (planChangesByZoneName [''example.com''] (delete_www target)) [''example.com'']
   = [(''example.com'', delete_www target)]"
  by (simp add: range_items_def planChangesByZoneName_def assign_def FindZone_def HasSuffix_def
      delete_www_def no_changes_def List.map_filter_simps)

lemma delete_unknown_plan:
  "allChanges [] [] ''example.com'' [scenarioA_r10, scenarioA_r11] (delete_www ''4.4.4.4'')
   = Some [new_change ovhDelete (hd (Delete (delete_www ''4.4.4.4''))) ''example.com'' ''4.4.4.4'']"
  by (simp add: allChanges_def newOvhChangeCreateDelete_def create_delete_loop_def
      create_delete_target_def new_change_def same_record_def delete_ids_def slices_Delete_def
      newOvhChangeUpdate_def range_keys_def endpointByTypeAndName_def
      delete_www_def scenarioA_r10_def scenarioA_r11_def TrimSuffix_def HasSuffix_def
      IsConfigured_def ovhDefaultTTL_def ovhDelete_def ovhCreate_def to_change_def)

lemma create_www_plan:
  "allChanges [] [] ''example.com'' [scenarioA_r10, scenarioA_r11] (create_www ''4.4.4.4'')
   = Some [new_change ovhCreate twin_delete ''example.com'' ''4.4.4.4'']"
  by (simp add: allChanges_def newOvhChangeCreateDelete_def create_delete_loop_def
      create_delete_target_def delete_ids_def newOvhChangeUpdate_def range_keys_def
      endpointByTypeAndName_def create_www_def twin_delete_def ovhDelete_def ovhCreate_def
      new_change_def)

lemma handleSingleZoneUpdate_returns:
  assumes "allChanges ks1 ks2 zoneName existingRecords changes \<noteq> None"
  shows "\<exists>err p'. handleSingleZoneUpdate ks1 ks2 zoneName existingRecords changes p = Some (err, p')"
proof -
  from assms obtain cs where cs: "allChanges ks1 ks2 zoneName existingRecords changes = Some cs"
    by auto
  from run_all_change[of cs p] obtain errs p1 where
    "run_all (\<lambda>c q. Some (change c q)) cs p = Some (errs, p1)" by blast
  with cs show ?thesis
    by (cases "refresh zoneName p1") (simp add: handleSingleZoneUpdate_def errgroup_def)
qed

lemma run_all_zones_returns:
  assumes "\<forall>zc \<in> set items.
             allChanges (order1 (fst zc)) (order2 (fst zc)) (fst zc) recs (snd zc) \<noteq> None"
  shows "\<exists>zerrs q1.
           run_all (\<lambda>(zoneName, changes).
                      handleSingleZoneUpdate (order1 zoneName) (order2 zoneName) zoneName recs changes)
             items q = Some (zerrs, q1)"
  using assms
proof (induction items arbitrary: q)
  case Nil
  then show ?case by simp
next
  case (Cons zc items)
  obtain zoneName changes where zc: "zc = (zoneName, changes)" by (cases zc)
  from Cons.prems zc
  have "allChanges (order1 zoneName) (order2 zoneName) zoneName recs changes \<noteq> None" by simp
  from handleSingleZoneUpdate_returns[OF this, of q] obtain err q0 where
    h: "handleSingleZoneUpdate (order1 zoneName) (order2 zoneName) zoneName recs changes q
        = Some (err, q0)" by blast
  from Cons.prems have "\<forall>zc \<in> set items.
      allChanges (order1 (fst zc)) (order2 (fst zc)) (fst zc) recs (snd zc) \<noteq> None" by simp
  from Cons.IH[OF this, of q0] obtain zerrs q1 where
    "run_all (\<lambda>(zoneName, changes).
                handleSingleZoneUpdate (order1 zoneName) (order2 zoneName) zoneName recs changes)
       items q0 = Some (zerrs, q1)" by blast
  with h zc show ?case by simp
qed

text \<open>
  C7. An Update or Delete change with record id 0 fails with \<open>ErrRecordToMutateNotFound\<close>
  and sends no call; a Create change never fails with that error, and every Create change
  that the planner puts into \<open>allChanges\<close> has the id 0. When the planner panics for no
  zone, \<open>ApplyChanges\<close> returns: with nil when every zone returned nil, and otherwise
  with one soft error, which wraps the first of the errors that the zones returned.
  Whenever \<open>ApplyChanges\<close> returns, its error is of this form.
\<close>

theorem unmatched_mutation_fails_softly:
  "((Action c = ovhUpdate \<or> Action c = ovhDelete) \<and> ID c = 0 \<longrightarrow>
      fst (change c p) = Some ErrRecordToMutateNotFound \<and> calls (snd (change c p)) = calls p)
   \<and> (Action c' = ovhCreate \<longrightarrow> fst (change c' p) \<noteq> Some ErrRecordToMutateNotFound)
   \<and> (allChanges ks1 ks2 zoneName existingRecords planned = Some cs \<longrightarrow>
        (\<forall>c \<in> set cs. Action c = ovhCreate \<longrightarrow> ID c = 0))
   \<and> ((\<forall>zc \<in> set (range_items (planChangesByZoneName (lastRunZones q) changes) zs).
           allChanges (order1 (fst zc)) (order2 (fst zc)) (fst zc) (lastRunRecords q) (snd zc)
             \<noteq> None) \<longrightarrow>
        (\<exists>zerrs q1 q'.
           run_all (\<lambda>(zoneName, changes).
                      handleSingleZoneUpdate (order1 zoneName) (order2 zoneName) zoneName
                        (lastRunRecords q) changes)
             (range_items (planChangesByZoneName (lastRunZones q) changes) zs) q
             = Some (zerrs, q1)
           \<and> ApplyChanges zs order1 order2 changes q
               = Some (map_option SoftError (first_error zerrs), q')
           \<and> ((\<forall>e \<in> set zerrs. e = None) \<longrightarrow>
                 ApplyChanges zs order1 order2 changes q = Some (None, q'))
           \<and> ((\<exists>e \<in> set zerrs. e \<noteq> None) \<longrightarrow>
                 (\<exists>e. Some e \<in> set zerrs
                    \<and> ApplyChanges zs order1 order2 changes q = Some (Some (SoftError e), q')))))
   \<and> (ApplyChanges zs order1 order2 changes q = Some (err, q') \<longrightarrow>
        (\<exists>zerrs q1.
           run_all (\<lambda>(zoneName, changes).
                      handleSingleZoneUpdate (order1 zoneName) (order2 zoneName) zoneName
                        (lastRunRecords q) changes)
             (range_items (planChangesByZoneName (lastRunZones q) changes) zs) q
             = Some (zerrs, q1)
           \<and> err = map_option SoftError (first_error zerrs)
           \<and> (err = None) = (\<forall>e \<in> set zerrs. e = None)
           \<and> (\<forall>e. err = Some e \<longrightarrow> (\<exists>e'. e = SoftError e' \<and> Some e' \<in> set zerrs))))"
proof (intro conjI impI)
  assume "(Action c = ovhUpdate \<or> Action c = ovhDelete) \<and> ID c = 0"
  then have "change c p = (Some ErrRecordToMutateNotFound, Take p)"
    by (simp add: change_unmatched)
  then show "fst (change c p) = Some ErrRecordToMutateNotFound"
    and "calls (snd (change c p)) = calls p"
    by (simp_all add: Take_def)
next
  assume "Action c' = ovhCreate"
  then show "fst (change c' p) \<noteq> Some ErrRecordToMutateNotFound" by (rule change_create)
next
  assume "allChanges ks1 ks2 zoneName existingRecords planned = Some cs"
  then show "\<forall>c \<in> set cs. Action c = ovhCreate \<longrightarrow> ID c = 0" by (rule allChanges_create_id)
next
  let ?items = "range_items (planChangesByZoneName (lastRunZones q) changes) zs"
  let ?run = "run_all (\<lambda>(zoneName, changes).
                      handleSingleZoneUpdate (order1 zoneName) (order2 zoneName) zoneName
                        (lastRunRecords q) changes) ?items q"
  assume "\<forall>zc \<in> set ?items.
           allChanges (order1 (fst zc)) (order2 (fst zc)) (fst zc) (lastRunRecords q) (snd zc)
             \<noteq> None"
  from run_all_zones_returns[OF this, of q] obtain zerrs q1 where r: "?run = Some (zerrs, q1)"
    by blast
  define q2 where "q2 = q1\<lparr>lastRunRecords := [], lastRunZones := []\<rparr>"
  have a: "ApplyChanges zs order1 order2 changes q
             = Some (map_option SoftError (first_error zerrs), q2)"
    using r by (simp add: ApplyChanges_result q2_def)
  have n: "(\<forall>e \<in> set zerrs. e = None) \<longrightarrow>
             ApplyChanges zs order1 order2 changes q = Some (None, q2)"
    using a by (simp add: first_error_None[symmetric])
  have s: "(\<exists>e \<in> set zerrs. e \<noteq> None) \<longrightarrow>
             (\<exists>e. Some e \<in> set zerrs
                \<and> ApplyChanges zs order1 order2 changes q = Some (Some (SoftError e), q2))"
  proof
    assume "\<exists>e \<in> set zerrs. e \<noteq> None"
    then have "first_error zerrs \<noteq> None" by (simp add: first_error_None)
    then obtain e where e: "first_error zerrs = Some e" by auto
    from first_error_Some[OF e] a e
    show "\<exists>e. Some e \<in> set zerrs
            \<and> ApplyChanges zs order1 order2 changes q = Some (Some (SoftError e), q2)"
      by auto
  qed
  have "?run = Some (zerrs, q1)
        \<and> ApplyChanges zs order1 order2 changes q
            = Some (map_option SoftError (first_error zerrs), q2)
        \<and> ((\<forall>e \<in> set zerrs. e = None) \<longrightarrow>
              ApplyChanges zs order1 order2 changes q = Some (None, q2))
        \<and> ((\<exists>e \<in> set zerrs. e \<noteq> None) \<longrightarrow>
              (\<exists>e. Some e \<in> set zerrs
                 \<and> ApplyChanges zs order1 order2 changes q = Some (Some (SoftError e), q2)))"
    using r a n s by (intro conjI)
  then show "\<exists>zerrs q1 q'. ?run = Some (zerrs, q1)
        \<and> ApplyChanges zs order1 order2 changes q
            = Some (map_option SoftError (first_error zerrs), q')
        \<and> ((\<forall>e \<in> set zerrs. e = None) \<longrightarrow>
              ApplyChanges zs order1 order2 changes q = Some (None, q'))
        \<and> ((\<exists>e \<in> set zerrs. e \<noteq> None) \<longrightarrow>
              (\<exists>e. Some e \<in> set zerrs
                 \<and> ApplyChanges zs order1 order2 changes q = Some (Some (SoftError e), q')))"
    by (intro exI)
next
  let ?run = "run_all (\<lambda>(zoneName, changes).
                      handleSingleZoneUpdate (order1 zoneName) (order2 zoneName) zoneName
                        (lastRunRecords q) changes)
             (range_items (planChangesByZoneName (lastRunZones q) changes) zs) q"
  assume a: "ApplyChanges zs order1 order2 changes q = Some (err, q')"
  then obtain zerrs q1 where r: "?run = Some (zerrs, q1)"
    and e: "err = map_option SoftError (first_error zerrs)"
    by (auto simp: ApplyChanges_result split: option.splits)
  have n: "(err = None) = (\<forall>e \<in> set zerrs. e = None)"
    using e by (simp add: first_error_None)
  have s: "\<forall>e. err = Some e \<longrightarrow> (\<exists>e'. e = SoftError e' \<and> Some e' \<in> set zerrs)"
    using e by (auto dest: first_error_Some)
  have "?run = Some (zerrs, q1)
           \<and> err = map_option SoftError (first_error zerrs)
           \<and> (err = None) = (\<forall>e \<in> set zerrs. e = None)
           \<and> (\<forall>e. err = Some e \<longrightarrow> (\<exists>e'. e = SoftError e' \<and> Some e' \<in> set zerrs))"
    using r e n s by (intro conjI)
  then show "\<exists>zerrs q1. ?run = Some (zerrs, q1)
           \<and> err = map_option SoftError (first_error zerrs)
           \<and> (err = None) = (\<forall>e \<in> set zerrs. e = None)
           \<and> (\<forall>e. err = Some e \<longrightarrow> (\<exists>e'. e = SoftError e' \<and> Some e' \<in> set zerrs))"
    by (intro exI)
qed

lemma provider_with_last_run:
  "lastRunZones (provider_with store dns) = [''example.com'']"
  "lastRunRecords (provider_with store dns) = [scenarioA_r10, scenarioA_r11]"
  by (simp_all add: provider_with_def)

lemma zone_delete_unknown_run:
  "\<exists>q1. run_all (\<lambda>(zoneName, changes).
                  handleSingleZoneUpdate (no_groups zoneName) (no_groups zoneName) zoneName
                    [scenarioA_r10, scenarioA_r11] changes)
            [(''example.com'', delete_www ''4.4.4.4'')] (provider_with store_ok (dns_serial 42))
          = Some ([Some ErrRecordToMutateNotFound], q1)"
  by (simp add: handleSingleZoneUpdate_def errgroup_def no_groups_def delete_unknown_plan
      change_def new_change_def ovhDelete_def ovhCreate_def ovhUpdate_def invalidateCache_def)

lemma zone_delete_down_run:
  "\<exists>q1. run_all (\<lambda>(zoneName, changes).
                  handleSingleZoneUpdate (no_groups zoneName) (no_groups zoneName) zoneName
                    [scenarioA_r10, scenarioA_r11] changes)
            [(''example.com'', delete_www ''1.1.1.1'')] (provider_with store_down (dns_serial 42))
          = Some ([Some (ClientError ''503'')], q1)"
proof -
  have "\<exists>q1. handleSingleZoneUpdate [] [] ''example.com'' [scenarioA_r10, scenarioA_r11]
               (delete_www ''1.1.1.1'') (provider_with store_down (dns_serial 42))
             = Some (Some (ClientError ''503''), q1)"
    unfolding handleSingleZoneUpdate_def delete_www_plan
    by (simp add: errgroup_def change_def Take_def send_def provider_with_def store_down_def
        to_change_def scenarioA_r10_def ovhDelete_def ovhCreate_def ovhUpdate_def
        invalidateCache_def)
  then show ?thesis by (auto simp: no_groups_def)
qed

theorem unmatched_mutation_witness:
  "(Action (new_change ovhDelete twin_delete ''example.com'' ''4.4.4.4'') = ovhDelete
    \<and> ID (new_change ovhDelete twin_delete ''example.com'' ''4.4.4.4'') = 0
    \<and> fst (change (new_change ovhDelete twin_delete ''example.com'' ''4.4.4.4'')
              (provider_with store_ok (dns_serial 42))) = Some ErrRecordToMutateNotFound
    \<and> calls (snd (change (new_change ovhDelete twin_delete ''example.com'' ''4.4.4.4'')
                     (provider_with store_ok (dns_serial 42)))) = [])
   \<and> (Action (new_change ovhCreate twin_delete ''example.com'' ''4.4.4.4'') = ovhCreate
      \<and> fst (change (new_change ovhCreate twin_delete ''example.com'' ''4.4.4.4'')
                (provider_with store_ok (dns_serial 42))) \<noteq> Some ErrRecordToMutateNotFound)
   \<and> (allChanges [] [] ''example.com'' [scenarioA_r10, scenarioA_r11] (create_www ''4.4.4.4'')
        = Some [new_change ovhCreate twin_delete ''example.com'' ''4.4.4.4'']
      \<and> ID (new_change ovhCreate twin_delete ''example.com'' ''4.4.4.4'') = 0)
   \<and> (range_items (planChangesByZoneName
                      (lastRunZones (provider_with store_ok (dns_serial 42)))
                      (delete_www ''4.4.4.4'')) [''example.com'']
        = [(''example.com'', delete_www ''4.4.4.4'')]
      \<and> allChanges (no_groups ''example.com'') (no_groups ''example.com'') ''example.com''
          (lastRunRecords (provider_with store_ok (dns_serial 42))) (delete_www ''4.4.4.4'')
        = Some [new_change ovhDelete (hd (Delete (delete_www ''4.4.4.4''))) ''example.com''
                  ''4.4.4.4'']
      \<and> (\<exists>q'. ApplyChanges [''example.com''] no_groups no_groups (delete_www ''4.4.4.4'')
                 (provider_with store_ok (dns_serial 42))
               = Some (Some (SoftError ErrRecordToMutateNotFound), q')))
   \<and> (range_items (planChangesByZoneName
                      (lastRunZones (provider_with store_down (dns_serial 42)))
                      (delete_www ''1.1.1.1'')) [''example.com'']
        = [(''example.com'', delete_www ''1.1.1.1'')]
      \<and> allChanges (no_groups ''example.com'') (no_groups ''example.com'') ''example.com''
          (lastRunRecords (provider_with store_down (dns_serial 42))) (delete_www ''1.1.1.1'')
        = Some [to_change scenarioA_r10 ovhDelete]
      \<and> (\<exists>q'. ApplyChanges [''example.com''] no_groups no_groups (delete_www ''1.1.1.1'')
                 (provider_with store_down (dns_serial 42))
               = Some (Some (SoftError (ClientError ''503'')), q')))"
proof -
  let ?d = "new_change ovhDelete twin_delete ''example.com'' ''4.4.4.4''"
  let ?c = "new_change ovhCreate twin_delete ''example.com'' ''4.4.4.4''"
  let ?p = "provider_with store_ok (dns_serial 42)"
  let ?q = "provider_with store_down (dns_serial 42)"
  note l = provider_with_last_run
  have d: "Action ?d = ovhDelete" "ID ?d = 0" and c: "Action ?c = ovhCreate" "ID ?c = 0"
    by (simp_all add: new_change_def)
  have p: "calls ?p = []" by (simp add: provider_with_def)
  have pl: "allChanges [] [] ''example.com'' [scenarioA_r10, scenarioA_r11] (create_www ''4.4.4.4'')
        = Some [?c]"
    by (rule create_www_plan)
  have z1: "range_items (planChangesByZoneName (lastRunZones ?p) (delete_www ''4.4.4.4''))
              [''example.com''] = [(''example.com'', delete_www ''4.4.4.4'')]"
    and z2: "range_items (planChangesByZoneName (lastRunZones ?q) (delete_www ''1.1.1.1''))
              [''example.com''] = [(''example.com'', delete_www ''1.1.1.1'')]"
    unfolding l by (rule delete_www_zones)+
  have a1: "allChanges (no_groups ''example.com'') (no_groups ''example.com'') ''example.com''
          (lastRunRecords ?p) (delete_www ''4.4.4.4'')
        = Some [new_change ovhDelete (hd (Delete (delete_www ''4.4.4.4''))) ''example.com''
                  ''4.4.4.4'']"
    unfolding l no_groups_def by (rule delete_unknown_plan)
  have a2: "allChanges (no_groups ''example.com'') (no_groups ''example.com'') ''example.com''
          (lastRunRecords ?q) (delete_www ''1.1.1.1'') = Some [to_change scenarioA_r10 ovhDelete]"
    unfolding l no_groups_def by (rule delete_www_plan)
  note t1 = unmatched_mutation_fails_softly[where c = ?d and p = ?p and c' = ?c
      and ?ks1.0 = "[]" and ?ks2.0 = "[]" and zoneName = "''example.com''"
      and existingRecords = "[scenarioA_r10, scenarioA_r11]"
      and planned = "create_www ''4.4.4.4''" and cs = "[?c]"
      and q = ?p and changes = "delete_www ''4.4.4.4''" and zs = "[''example.com'']"
      and ?order1.0 = no_groups and ?order2.0 = no_groups]
  note t2 = unmatched_mutation_fails_softly[where q = ?q and changes = "delete_www ''1.1.1.1''"
      and zs = "[''example.com'']" and ?order1.0 = no_groups and ?order2.0 = no_groups]
  have i: "fst (change ?d ?p) = Some ErrRecordToMutateNotFound"
    "calls (snd (change ?d ?p)) = []"
    "fst (change ?c ?p) \<noteq> Some ErrRecordToMutateNotFound"
    using t1[THEN conjunct1] t1[THEN conjunct2, THEN conjunct1] d c p by simp_all
  have h1: "\<forall>zc \<in> set (range_items (planChangesByZoneName (lastRunZones ?p)
                 (delete_www ''4.4.4.4'')) [''example.com'']).
             allChanges (no_groups (fst zc)) (no_groups (fst zc)) (fst zc) (lastRunRecords ?p)
               (snd zc) \<noteq> None"
    unfolding z1 using a1 by simp
  have h2: "\<forall>zc \<in> set (range_items (planChangesByZoneName (lastRunZones ?q)
                 (delete_www ''1.1.1.1'')) [''example.com'']).
             allChanges (no_groups (fst zc)) (no_groups (fst zc)) (fst zc) (lastRunRecords ?q)
               (snd zc) \<noteq> None"
    unfolding z2 using a2 by simp
  from t1[THEN conjunct2, THEN conjunct2, THEN conjunct2, THEN conjunct1, THEN mp, OF h1]
  obtain zerrs q1 q' where
    r1: "run_all (\<lambda>(zoneName, changes).
                  handleSingleZoneUpdate (no_groups zoneName) (no_groups zoneName) zoneName
                    (lastRunRecords ?p) changes)
            [(''example.com'', delete_www ''4.4.4.4'')] ?p = Some (zerrs, q1)"
    and r1': "ApplyChanges [''example.com''] no_groups no_groups (delete_www ''4.4.4.4'') ?p
              = Some (map_option SoftError (first_error zerrs), q')"
    unfolding z1 by blast
  from zone_delete_unknown_run obtain k1 where
    "run_all (\<lambda>(zoneName, changes).
                  handleSingleZoneUpdate (no_groups zoneName) (no_groups zoneName) zoneName
                    [scenarioA_r10, scenarioA_r11] changes)
            [(''example.com'', delete_www ''4.4.4.4'')] ?p
     = Some ([Some ErrRecordToMutateNotFound], k1)" ..
  with r1[unfolded l] have "Some (zerrs, q1) = Some ([Some ErrRecordToMutateNotFound], k1)"
    by (simp only:)
  then have "zerrs = [Some ErrRecordToMutateNotFound]" by simp
  with r1' have e1: "\<exists>q'. ApplyChanges [''example.com''] no_groups no_groups
        (delete_www ''4.4.4.4'') ?p = Some (Some (SoftError ErrRecordToMutateNotFound), q')"
    by simp
  from t2[THEN conjunct2, THEN conjunct2, THEN conjunct2, THEN conjunct1, THEN mp, OF h2]
  obtain zerrs2 q2 q2' where
    r2: "run_all (\<lambda>(zoneName, changes).
                  handleSingleZoneUpdate (no_groups zoneName) (no_groups zoneName) zoneName
                    (lastRunRecords ?q) changes)
            [(''example.com'', delete_www ''1.1.1.1'')] ?q = Some (zerrs2, q2)"
    and r2': "ApplyChanges [''example.com''] no_groups no_groups (delete_www ''1.1.1.1'') ?q
              = Some (map_option SoftError (first_error zerrs2), q2')"
    unfolding z2 by blast
  from zone_delete_down_run obtain k2 where
    "run_all (\<lambda>(zoneName, changes).
                  handleSingleZoneUpdate (no_groups zoneName) (no_groups zoneName) zoneName
                    [scenarioA_r10, scenarioA_r11] changes)
            [(''example.com'', delete_www ''1.1.1.1'')] ?q
     = Some ([Some (ClientError ''503'')], k2)" ..
  with r2[unfolded l] have "Some (zerrs2, q2) = Some ([Some (ClientError ''503'')], k2)"
    by (simp only:)
  then have "zerrs2 = [Some (ClientError ''503'')]" by simp
  with r2' have e2: "\<exists>q'. ApplyChanges [''example.com''] no_groups no_groups
        (delete_www ''1.1.1.1'') ?q = Some (Some (SoftError (ClientError ''503'')), q')"
    by simp
  show ?thesis
    using d c i pl z1 a1 e1 z2 a2 e2 by (intro conjI)
qed

lemma FindZone_Nil: "FindZone [] hostname = ''''"
  by (simp add: FindZone_def)

lemma assign_Nil:
  "assign [] upd endpt out = out('''' \<mapsto> upd (\<lambda>es. es @ [endpt]) (current out))"
  by (auto simp: assign_def FindZone_Nil current_def Let_def fun_eq_iff split: option.splits)

lemma fold_assign_Delete:
  "fold (assign [] Delete_update) es out
   = (if es = [] then out else out('''' \<mapsto> (current out)\<lparr>Delete := Delete (current out) @ es\<rparr>))"
  by (induction es arbitrary: out) (auto simp: assign_Nil current_def)

lemma fold_assign_Create:
  "fold (assign [] Create_update) es out
   = (if es = [] then out else out('''' \<mapsto> (current out)\<lparr>Create := Create (current out) @ es\<rparr>))"
  by (induction es arbitrary: out) (auto simp: assign_Nil current_def)

lemma fold_assign_UpdateOld:
  "fold (assign [] UpdateOld_update) es out
   = (if es = [] then out else out('''' \<mapsto> (current out)\<lparr>UpdateOld := UpdateOld (current out) @ es\<rparr>))"
  by (induction es arbitrary: out) (auto simp: assign_Nil current_def)

lemma fold_assign_UpdateNew:
  "fold (assign [] UpdateNew_update) es out
   = (if es = [] then out else out('''' \<mapsto> (current out)\<lparr>UpdateNew := UpdateNew (current out) @ es\<rparr>))"
  by (induction es arbitrary: out) (auto simp: assign_Nil current_def)

lemma planChangesByZoneName_Nil:
  "planChangesByZoneName [] changes
   = (if changes = no_changes then Map.empty else [''''  \<mapsto> changes])"
proof -
  obtain c u1 u2 d where ch: "changes = \<lparr>Create = c, UpdateOld = u1, UpdateNew = u2, Delete = d\<rparr>"
    by (cases changes) auto
  show ?thesis
    unfolding planChangesByZoneName_def fold_assign_Delete fold_assign_Create
      fold_assign_UpdateOld fold_assign_UpdateNew
    by (auto simp: ch current_def no_changes_def fun_eq_iff)
qed

lemma range_order_singleton:
  assumes "range_order [k \<mapsto> v] ks"
  shows "ks = [k]"
proof -
  from assms have d: "distinct ks" and s: "set ks = {k}" by (simp_all add: range_order_def)
  from s obtain x xs where c: "ks = x # xs" by (cases ks) auto
  with s have x: "x = k" by auto
  from c d s x have "set xs \<subseteq> {k}" "k \<notin> set xs" by auto
  then have "xs = []" by (cases xs) auto
  with c x show ?thesis by simp
qed

lemma first_error_single: "first_error [e] = e"
  by (cases e) simp_all

lemma range_order_empty:
  "range_order Map.empty ks \<Longrightarrow> ks = []"
  by (simp add: range_order_def)

lemma ApplyChanges_Nil:
  assumes z: "lastRunZones q = []" and r: "lastRunRecords q = []"
    and o: "range_order (planChangesByZoneName (lastRunZones q) changes2) zs2"
  shows "ApplyChanges zs2 order1 order2 changes2 q =
           (if changes2 = no_changes then Some (None, q)
            else case handleSingleZoneUpdate (order1 '''') (order2 '''') '''' [] changes2 q of
                   None \<Rightarrow> None
                 | Some (e, q') \<Rightarrow>
                     Some (map_option SoftError e, q'\<lparr>lastRunRecords := [], lastRunZones := []\<rparr>))"
proof (cases "changes2 = no_changes")
  case True
  with o z have "zs2 = []" by (simp add: planChangesByZoneName_Nil range_order_empty)
  moreover from z r have "q\<lparr>lastRunRecords := [], lastRunZones := []\<rparr> = q" by simp
  ultimately show ?thesis using True
    by (simp add: ApplyChanges_def errgroup_def range_items_def List.map_filter_simps)
next
  case False
  with o z have "range_order ['''' \<mapsto> changes2] zs2" by (simp add: planChangesByZoneName_Nil)
  then have "zs2 = ['''']" by (rule range_order_singleton)
  then have i: "range_items (planChangesByZoneName [] changes2) zs2 = [('''', changes2)]"
    using False by (simp add: range_items_def List.map_filter_simps planChangesByZoneName_Nil)
  show ?thesis
    unfolding ApplyChanges_def Let_def z r i
    using False by (simp add: errgroup_def first_error_single split: option.splits)
qed

text \<open>
  C10. When \<open>ApplyChanges\<close> returns, with or without an error, the provider's
  \<open>lastRunZones\<close> and \<open>lastRunRecords\<close> are empty. A following \<open>ApplyChanges\<close> with the
  changes \<open>changes2\<close> therefore partitions them against the empty zone list: every hostname
  is assigned the empty zone name, which is the only key of the partition and holds all of
  \<open>changes2\<close>, and the call is the update of that one zone, named by the empty string, against
  the empty record snapshot, with its error made soft; with no changes it does nothing.
\<close>

theorem ApplyChanges_forgets_last_run:
  assumes "ApplyChanges zs order1 order2 changes p = Some (err, p')"
  shows "lastRunZones p' = [] \<and> lastRunRecords p' = []
     \<and> FindZone (lastRunZones p') hostname = ''''
     \<and> dom (planChangesByZoneName (lastRunZones p') changes2) \<subseteq> {''''}
     \<and> (changes2 \<noteq> no_changes \<longrightarrow>
          planChangesByZoneName (lastRunZones p') changes2 '''' = Some changes2)
     \<and> (range_order (planChangesByZoneName (lastRunZones p') changes2) zs2 \<longrightarrow>
          zs2 = (if changes2 = no_changes then [] else [''''])
          \<and> ApplyChanges zs2 order1' order2' changes2 p' =
              (if changes2 = no_changes then Some (None, p')
               else case handleSingleZoneUpdate (order1' '''') (order2' '''') '''' [] changes2 p' of
                      None \<Rightarrow> None
                    | Some (e, p'') \<Rightarrow>
                        Some (map_option SoftError e,
                              p''\<lparr>lastRunRecords := [], lastRunZones := []\<rparr>)))"
proof -
  from assms have l: "lastRunZones p' = []" "lastRunRecords p' = []"
    by (auto simp: ApplyChanges_result split: option.splits)
  have a: "FindZone (lastRunZones p') hostname = ''''"
    and b: "dom (planChangesByZoneName (lastRunZones p') changes2) \<subseteq> {''''}"
    and c: "changes2 \<noteq> no_changes \<longrightarrow>
          planChangesByZoneName (lastRunZones p') changes2 '''' = Some changes2"
    using l by (auto simp: FindZone_Nil planChangesByZoneName_Nil split: if_splits)
  have d: "range_order (planChangesByZoneName (lastRunZones p') changes2) zs2 \<longrightarrow>
          zs2 = (if changes2 = no_changes then [] else [''''])
          \<and> ApplyChanges zs2 order1' order2' changes2 p' =
              (if changes2 = no_changes then Some (None, p')
               else case handleSingleZoneUpdate (order1' '''') (order2' '''') '''' [] changes2 p' of
                      None \<Rightarrow> None
                    | Some (e, p'') \<Rightarrow>
                        Some (map_option SoftError e,
                              p''\<lparr>lastRunRecords := [], lastRunZones := []\<rparr>))"
  proof (intro impI conjI)
    assume o: "range_order (planChangesByZoneName (lastRunZones p') changes2) zs2"
    then show "zs2 = (if changes2 = no_changes then [] else [''''])"
      unfolding l planChangesByZoneName_Nil
      by (auto dest: range_order_empty range_order_singleton split: if_splits)
    from ApplyChanges_Nil[OF l o]
    show "ApplyChanges zs2 order1' order2' changes2 p' =
              (if changes2 = no_changes then Some (None, p')
               else case handleSingleZoneUpdate (order1' '''') (order2' '''') '''' [] changes2 p' of
                      None \<Rightarrow> None
                    | Some (e, p'') \<Rightarrow>
                        Some (map_option SoftError e,
                              p''\<lparr>lastRunRecords := [], lastRunZones := []\<rparr>))" .
  qed
  from l a b c d show ?thesis by (intro conjI)
qed

lemma apply_delete_known:
  "\<exists>q'. ApplyChanges [''example.com''] no_groups no_groups (delete_www ''1.1.1.1'')
          (provider_with store_ok (dns_serial 42))
        = Some (None, q')
      \<and> calls q' = [DeleteRecord ''example.com'' 10, PostRefresh ''example.com'']"
proof -
  have "\<exists>q1. handleSingleZoneUpdate [] [] ''example.com'' [scenarioA_r10, scenarioA_r11]
               (delete_www ''1.1.1.1'') (provider_with store_ok (dns_serial 42))
             = Some (None, q1)
           \<and> calls q1 = [DeleteRecord ''example.com'' 10, PostRefresh ''example.com'']"
    unfolding handleSingleZoneUpdate_def delete_www_plan
    by (simp add: errgroup_def change_def refresh_def Take_def send_def provider_with_def
        store_ok_def to_change_def scenarioA_r10_def ovhDelete_def ovhCreate_def ovhUpdate_def
        invalidateCache_def)
  then show ?thesis
    unfolding ApplyChanges_def Let_def provider_with_last_run delete_www_zones
    by (auto simp: no_groups_def errgroup_def)
qed

lemma delete_www_no_zone:
  "\<exists>q'. handleSingleZoneUpdate [] [] '''' [] (delete_www target) q
        = Some (Some ErrRecordToMutateNotFound, q') \<and> calls q' = calls q"
  by (simp add: handleSingleZoneUpdate_def allChanges_def newOvhChangeCreateDelete_def
      create_delete_loop_def create_delete_target_def new_change_def delete_ids_def
      newOvhChangeUpdate_def range_keys_def endpointByTypeAndName_def delete_www_def
      errgroup_def change_def Take_def invalidateCache_def
      ovhDelete_def ovhCreate_def ovhUpdate_def)

theorem ApplyChanges_forgets_witness:
  "\<exists>q'. ApplyChanges [''example.com''] no_groups no_groups (delete_www ''1.1.1.1'')
          (provider_with store_ok (dns_serial 42))
        = Some (None, q')
      \<and> calls q' = [DeleteRecord ''example.com'' 10, PostRefresh ''example.com'']
      \<and> lastRunZones (provider_with store_ok (dns_serial 42)) = [''example.com'']
      \<and> lastRunZones q' = [] \<and> lastRunRecords q' = []
      \<and> FindZone (lastRunZones q') ''www.example.com'' = ''''
      \<and> delete_www ''1.1.1.1'' \<noteq> no_changes
      \<and> planChangesByZoneName (lastRunZones q') (delete_www ''1.1.1.1'') ''''
          = Some (delete_www ''1.1.1.1'')
      \<and> planChangesByZoneName (lastRunZones q') (delete_www ''1.1.1.1'') ''example.com'' = None
      \<and> range_order (planChangesByZoneName (lastRunZones q') (delete_www ''1.1.1.1'')) ['''']
      \<and> (\<exists>q''. ApplyChanges [''''] no_groups no_groups (delete_www ''1.1.1.1'') q'
                  = Some (Some (SoftError ErrRecordToMutateNotFound), q'')
                \<and> calls q'' = calls q')"
proof -
  from apply_delete_known obtain q' where
    a: "ApplyChanges [''example.com''] no_groups no_groups (delete_www ''1.1.1.1'')
          (provider_with store_ok (dns_serial 42))
        = Some (None, q')"
    and k: "calls q' = [DeleteRecord ''example.com'' 10, PostRefresh ''example.com'']" by blast
  have n: "delete_www ''1.1.1.1'' \<noteq> no_changes"
    by (simp add: delete_www_def no_changes_def)
  have z: "lastRunZones (provider_with store_ok (dns_serial 42)) = [''example.com'']"
    by (simp add: provider_with_def)
  note t = ApplyChanges_forgets_last_run[OF a, where hostname = "''www.example.com''"
      and ?changes2.0 = "delete_www ''1.1.1.1''" and ?zs2.0 = "['''']"
      and order1' = no_groups and order2' = no_groups]
  from t have l: "lastRunZones q' = []" "lastRunRecords q' = []"
    and f: "FindZone (lastRunZones q') ''www.example.com'' = ''''"
    and d: "dom (planChangesByZoneName (lastRunZones q') (delete_www ''1.1.1.1'')) \<subseteq> {''''}"
    by blast+
  from t n have s: "planChangesByZoneName (lastRunZones q') (delete_www ''1.1.1.1'') ''''
          = Some (delete_www ''1.1.1.1'')" by blast
  have "''example.com'' \<notin> {''''}" by simp
  with d have "''example.com'' \<notin> dom (planChangesByZoneName (lastRunZones q') (delete_www ''1.1.1.1''))"
    by blast
  then have e: "planChangesByZoneName (lastRunZones q') (delete_www ''1.1.1.1'') ''example.com'' = None"
    by (simp add: domIff)
  from d s have "dom (planChangesByZoneName (lastRunZones q') (delete_www ''1.1.1.1'')) = {''''}"
    by blast
  then have o: "range_order (planChangesByZoneName (lastRunZones q') (delete_www ''1.1.1.1'')) ['''']"
    by (simp add: range_order_def)
  from t o n have c2: "ApplyChanges [''''] no_groups no_groups (delete_www ''1.1.1.1'') q' =
      (case handleSingleZoneUpdate (no_groups '''') (no_groups '''') '''' []
              (delete_www ''1.1.1.1'') q' of
         None \<Rightarrow> None
       | Some (e, p'') \<Rightarrow>
           Some (map_option SoftError e, p''\<lparr>lastRunRecords := [], lastRunZones := []\<rparr>))"
    by simp
  from delete_www_no_zone[of "''1.1.1.1''" q'] obtain q1 where
    h: "handleSingleZoneUpdate [] [] '''' [] (delete_www ''1.1.1.1'') q'
        = Some (Some ErrRecordToMutateNotFound, q1)" and hc: "calls q1 = calls q'" by blast
  have c3: "\<exists>q''. ApplyChanges [''''] no_groups no_groups (delete_www ''1.1.1.1'') q'
                  = Some (Some (SoftError ErrRecordToMutateNotFound), q'')
                \<and> calls q'' = calls q'"
    unfolding c2 no_groups_def h using hc by simp
  from a k z l f n s e o c3 show ?thesis by blast
qed

section \<open>Properties of the constructor\<close>

text \<open>
  C9, as amended. With dry-run enabled, \<open>NewOVHProvider\<close> returns no provider, and no call
  has been sent to the store; the error is \<open>ErrNoDryRun\<close> when the client of the endpoint
  can be created, and the error of its creation otherwise.
\<close>

theorem dry_run_is_refused:
  "NewOVHProvider NewEndpointClient newDnsClient zoneFilter endpoint apiRateLimit True
   = (Inl (case NewEndpointClient endpoint of
             Inl err \<Rightarrow> ClientError err
           | Inr c \<Rightarrow> ErrNoDryRun), [])"
  by (simp add: NewOVHProvider_def split: sum.splits)

text \<open>
  With an endpoint for which no client can be created, the error is not \<open>ErrNoDryRun\<close>.
\<close>

theorem dry_run_error_counterexample:
  "NewOVHProvider no_client (dns_serial 42) any_zone ''ovh-eu'' 20 True
     = (Inl (ClientError ''unknown endpoint''), [])
   \<and> NewOVHProvider no_client (dns_serial 42) any_zone ''ovh-eu'' 20 True
     \<noteq> (Inl ErrNoDryRun, [])"
  by (simp add: NewOVHProvider_def no_client_def)

theorem dry_run_is_refused_witness:
  "NewOVHProvider ovh_eu_client (dns_serial 42) any_zone ''ovh-eu'' 20 True = (Inl ErrNoDryRun, [])"
  using dry_run_is_refused[of ovh_eu_client "dns_serial 42" any_zone "''ovh-eu''" 20]
  by (simp add: ovh_eu_client_def)

section \<open>Properties of the fetcher\<close>

lemma record_by_id_effect:
  "\<exists>err p' ch'. record_by_id supported zone i (p, ch) = (err, p', ch')
     \<and> calls p' = calls p @ [GetRecord zone i]
     \<and> apiRateLimiter p' = apiRateLimiter p + 1
     \<and> cacheInstance p' = cacheInstance p \<and> UseCache p' = UseCache p \<and> client p' = client p"
  by (auto simp: record_by_id_def Let_def Take_def send_def split: sum.splits)

lemma run_all_record_by_id:
  "\<exists>errs p' ch'. run_all (\<lambda>i st. Some (record_by_id supported zone i st)) ids (p, ch)
       = Some (errs, p', ch')
     \<and> calls p' = calls p @ map (GetRecord zone) ids
     \<and> apiRateLimiter p' = apiRateLimiter p + length ids
     \<and> cacheInstance p' = cacheInstance p \<and> UseCache p' = UseCache p \<and> client p' = client p"
proof (induction ids arbitrary: p ch)
  case Nil
  then show ?case by simp
next
  case (Cons i ids)
  from record_by_id_effect[of supported zone i p ch] obtain err p1 ch1 where
    r: "record_by_id supported zone i (p, ch) = (err, p1, ch1)"
    and e: "calls p1 = calls p @ [GetRecord zone i]" "apiRateLimiter p1 = apiRateLimiter p + 1"
      "cacheInstance p1 = cacheInstance p" "UseCache p1 = UseCache p" "client p1 = client p"
    by blast
  from Cons.IH[of p1 ch1] obtain errs p' ch' where
    a: "run_all (\<lambda>i st. Some (record_by_id supported zone i st)) ids (p1, ch1) = Some (errs, p', ch')"
    and f: "calls p' = calls p1 @ map (GetRecord zone) ids"
      "apiRateLimiter p' = apiRateLimiter p1 + length ids"
      "cacheInstance p' = cacheInstance p1" "UseCache p' = UseCache p1" "client p' = client p1"
    by blast
  have "run_all (\<lambda>i st. Some (record_by_id supported zone i st)) (i # ids) (p, ch)
        = Some (err # errs, p', ch')"
    using r a by simp
  with e f show ?case by simp
qed

lemma records_from_api_calls:
  assumes "UseCache p"
  shows "\<exists>res p'. records_from_api supported zone p = Some (res, p')
     \<and> calls p' = calls p @ full_fetch_calls (client p) zone (calls p)"
proof (cases "GetWithContext_soa (client p) (calls p) (GetSoa zone)")
  case (Inl err)
  with assms show ?thesis
    by (simp add: records_from_api_def full_fetch_calls_def Let_def Take_def send_def)
next
  case soa: (Inr a)
  obtain server serial where a: "a = (server, serial)" by (cases a)
  show ?thesis
  proof (cases "GetWithContext_ids (client p) (calls p @ [GetSoa zone]) (GetRecordIds zone)")
    case (Inl err)
    with assms soa a show ?thesis
      by (simp add: records_from_api_def full_fetch_calls_def Let_def Take_def send_def)
  next
    case (Inr ids)
    let ?p2 = "p\<lparr>apiRateLimiter := apiRateLimiter p + 1,
                   calls := calls p @ [GetSoa zone, GetRecordIds zone]\<rparr>"
    from run_all_record_by_id[of supported zone ids ?p2 "[]"] obtain errs p3 ch where
      r: "run_all (\<lambda>i st. Some (record_by_id supported zone i st)) ids (?p2, []) = Some (errs, p3, ch)"
      and c: "calls p3 = calls ?p2 @ map (GetRecord zone) ids" by blast
    have "\<exists>res p'. records_from_api supported zone p = Some (res, p') \<and> calls p' = calls p3"
      using assms soa a Inr r
      by (cases "first_error errs")
        (auto simp: records_from_api_def Let_def Take_def send_def errgroup_def cache_Add_def)
    with c soa a Inr show ?thesis
      by (auto simp: full_fetch_calls_def)
  qed
qed

text \<open>
  C4, as amended. Let the provider use the cache and hold a snapshot of the zone with serial
  \<open>S\<close>. If the serial query is answered with an SOA of serial \<open>S\<close> first, \<open>records\<close>
  returns the cached record set and the query is the only call it sends. If the query
  fails, or is answered with an SOA of another serial or with a record of another type
  first, the cache entry is invalidated and the full fetch runs from that state: the SOA of the zone is requested from the store;
  if that is answered the record ids are listed; if that is answered every listed record is
  requested by id.
\<close>

theorem cached_snapshot_validity:
  assumes use: "UseCache p"
    and hit: "cacheInstance p (zone @ ''#soa'') = Some cachedSoa"
    and question: "question = ExchangeSOA zone (TrimSuffix (Server cachedSoa) ''.'' @ '':53'')"
  shows "(\<forall>rest. dnsClient p (calls p) question = Inr (SOA (Serial cachedSoa) # rest) \<longrightarrow>
            records supported zone p
              = Some (Inr (soa_records cachedSoa), p\<lparr>calls := calls p @ [question]\<rparr>))
       \<and> ((\<exists>err. dnsClient p (calls p) question = Inl err)
           \<or> (\<exists>serial rest. dnsClient p (calls p) question = Inr (SOA serial # rest)
                 \<and> serial \<noteq> Serial cachedSoa)
           \<or> (\<exists>rest. dnsClient p (calls p) question = Inr (OtherRR # rest)) \<longrightarrow>
            records supported zone p
              = records_from_api supported zone
                  (invalidateCache zone (p\<lparr>calls := calls p @ [question]\<rparr>))
            \<and> cacheInstance (invalidateCache zone (p\<lparr>calls := calls p @ [question]\<rparr>))
                 (zone @ ''#soa'') = None
            \<and> (\<exists>res p'. records supported zone p = Some (res, p')
                  \<and> calls p' = calls p @ [question]
                       @ full_fetch_calls (client p) zone (calls p @ [question])))"
proof (intro conjI allI impI)
  fix rest
  assume "dnsClient p (calls p) question = Inr (SOA (Serial cachedSoa) # rest)"
  with use hit question
  show "records supported zone p
          = Some (Inr (soa_records cachedSoa), p\<lparr>calls := calls p @ [question]\<rparr>)"
    by (simp add: records_def send_def)
next
  let ?p1 = "invalidateCache zone (p\<lparr>calls := calls p @ [question]\<rparr>)"
  assume stale: "(\<exists>err. dnsClient p (calls p) question = Inl err)
           \<or> (\<exists>serial rest. dnsClient p (calls p) question = Inr (SOA serial # rest)
                 \<and> serial \<noteq> Serial cachedSoa)
           \<or> (\<exists>rest. dnsClient p (calls p) question = Inr (OtherRR # rest))"
  with use hit question
  show eq: "records supported zone p = records_from_api supported zone ?p1"
    by (auto simp: records_def send_def)
  show "cacheInstance ?p1 (zone @ ''#soa'') = None"
    by (simp add: invalidateCache_def)
  have "UseCache ?p1" "calls ?p1 = calls p @ [question]" "client ?p1 = client p"
    using use by (simp_all add: invalidateCache_def)
  with records_from_api_calls[of ?p1 supported zone] eq
  show "\<exists>res p'. records supported zone p = Some (res, p')
          \<and> calls p' = calls p @ [question]
               @ full_fetch_calls (client p) zone (calls p @ [question])"
    by auto
qed

lemma provider_with_facts:
  "UseCache (provider_with store dns)"
  "cacheInstance (provider_with store dns) (''example.com'' @ ''#soa'') = Some cached_soa"
  "soa_question = ExchangeSOA ''example.com'' (TrimSuffix (Server cached_soa) ''.'' @ '':53'')"
  "calls (provider_with store dns) = []"
  "client (provider_with store dns) = store"
  "dnsClient (provider_with store dns) = dns"
  "Serial cached_soa = 42"
  by (simp_all add: provider_with_def cached_soa_def soa_question_def TrimSuffix_def HasSuffix_def)

theorem cached_snapshot_witness:
  "UseCache (provider_with store_ok (dns_serial 42))
   \<and> cacheInstance (provider_with store_ok (dns_serial 42)) (''example.com'' @ ''#soa'')
       = Some cached_soa
   \<and> dnsClient (provider_with store_ok (dns_serial 42)) [] soa_question = Inr [SOA 42]
   \<and> Serial cached_soa = 42
   \<and> (\<exists>p'. records supported_type ''example.com'' (provider_with store_ok (dns_serial 42))
              = Some (Inr [scenarioA_r10, scenarioA_r11], p')
            \<and> calls p' = [soa_question])
   \<and> dnsClient (provider_with store_ok (dns_serial 43)) [] soa_question = Inr [SOA 43]
   \<and> (\<exists>res p'. records supported_type ''example.com'' (provider_with store_ok (dns_serial 43))
              = Some (res, p')
            \<and> calls p' = [soa_question, GetSoa ''example.com'', GetRecordIds ''example.com'',
                            GetRecord ''example.com'' 10])"
proof -
  let ?p = "provider_with store_ok (dns_serial 42)"
  let ?q = "provider_with store_ok (dns_serial 43)"
  have a42: "dnsClient ?p (calls ?p) soa_question = Inr (SOA (Serial cached_soa) # [])"
    and a43: "dnsClient ?q (calls ?q) soa_question = Inr (SOA 43 # [])"
    by (simp_all add: provider_with_facts dns_serial_def)
  have stale: "(\<exists>err. dnsClient ?q (calls ?q) soa_question = Inl err)
           \<or> (\<exists>serial rest. dnsClient ?q (calls ?q) soa_question = Inr (SOA serial # rest)
                 \<and> serial \<noteq> Serial cached_soa)
           \<or> (\<exists>rest. dnsClient ?q (calls ?q) soa_question = Inr (OtherRR # rest))"
    using a43 by (simp add: provider_with_facts)
  have ff: "full_fetch_calls store_ok ''example.com'' [soa_question]
            = [GetSoa ''example.com'', GetRecordIds ''example.com'', GetRecord ''example.com'' 10]"
    by (simp add: full_fetch_calls_def store_ok_def)
  from cached_snapshot_validity[OF provider_with_facts(1-3), of store_ok "dns_serial 42" supported_type] a42
  have v: "records supported_type ''example.com'' ?p
            = Some (Inr (soa_records cached_soa), ?p\<lparr>calls := calls ?p @ [soa_question]\<rparr>)"
    by blast
  from cached_snapshot_validity[OF provider_with_facts(1-3), of store_ok "dns_serial 43" supported_type] stale
  obtain res p' where s: "records supported_type ''example.com'' ?q = Some (res, p')"
    "calls p' = calls ?q @ [soa_question] @ full_fetch_calls (client ?q) ''example.com'' (calls ?q @ [soa_question])"
    by blast
  from v have v': "\<exists>p'. records supported_type ''example.com'' ?p
              = Some (Inr [scenarioA_r10, scenarioA_r11], p') \<and> calls p' = [soa_question]"
    by (simp add: provider_with_facts cached_soa_def)
  from s ff have s': "\<exists>res p'. records supported_type ''example.com'' ?q = Some (res, p')
            \<and> calls p' = [soa_question, GetSoa ''example.com'', GetRecordIds ''example.com'',
                            GetRecord ''example.com'' 10]"
    by (simp add: provider_with_facts)
  have d: "dnsClient ?p [] soa_question = Inr [SOA 42]" "dnsClient ?q [] soa_question = Inr [SOA 43]"
    by (simp_all add: provider_with_facts(6) dns_serial_def)
  have u: "UseCache ?p" "cacheInstance ?p (''example.com'' @ ''#soa'') = Some cached_soa"
    "Serial cached_soa = 42"
    by (rule provider_with_facts)+
  from v' s' d u show ?thesis
    by blast
qed

text \<open>
  With a store that answers the request of the SOA with an error, the record ids are not
  listed although the serial query returned another serial than the cached one.
\<close>

theorem cached_snapshot_counterexample:
  "UseCache (provider_with store_down (dns_serial 43))
   \<and> cacheInstance (provider_with store_down (dns_serial 43)) (''example.com'' @ ''#soa'')
       = Some cached_soa
   \<and> Serial cached_soa = 42
   \<and> dnsClient (provider_with store_down (dns_serial 43)) [] soa_question = Inr [SOA 43]
   \<and> (\<exists>p'. records supported_type ''example.com'' (provider_with store_down (dns_serial 43))
              = Some (Inl (ClientError ''503''), p')
            \<and> calls p' = [soa_question, GetSoa ''example.com'']
            \<and> GetRecordIds ''example.com'' \<notin> set (calls p'))"
  by (simp add: provider_with_facts dns_serial_def)
    (simp add: records_def records_from_api_def send_def Take_def invalidateCache_def Let_def
      provider_with_def store_down_def dns_serial_def cached_soa_def soa_question_def
      TrimSuffix_def HasSuffix_def)

text \<open>
  C5. The spec has every failure of the serial query, an answer without records included,
  fall back to a full fetch. The code reads \<open>in.Answer[0]\<close> whenever the query returned
  no error: on an answer section without records \<open>records\<close> panics.
\<close>

theorem empty_answer_panics:
  "UseCache (provider_with store_ok dns_no_answer)
   \<and> cacheInstance (provider_with store_ok dns_no_answer) (''example.com'' @ ''#soa'')
       = Some cached_soa
   \<and> dnsClient (provider_with store_ok dns_no_answer) [] soa_question = Inr []
   \<and> records supported_type ''example.com'' (provider_with store_ok dns_no_answer) = None"
  by (simp add: provider_with_facts dns_no_answer_def)
    (simp add: records_def send_def provider_with_def dns_no_answer_def)

section \<open>Properties of the grouping\<close>

lemma slash_prefix_unique:
  "z1 @ ''//'' @ r1 = z2 @ ''//'' @ r2 \<Longrightarrow> CHR ''/'' \<notin> set z1 \<Longrightarrow> CHR ''/'' \<notin> set z2
   \<Longrightarrow> z1 = z2 \<and> r1 = r2"
proof (induction z1 arbitrary: z2)
  case Nil
  then show ?case by (cases z2) auto
next
  case (Cons c z1)
  then show ?case by (cases z2) auto
qed

lemma slash_suffix_unique:
  assumes "s1 @ ''//'' @ t1 = s2 @ ''//'' @ t2" "CHR ''/'' \<notin> set t1" "CHR ''/'' \<notin> set t2"
  shows "s1 = s2 \<and> t1 = t2"
proof -
  from assms(1) have "rev (s1 @ ''//'' @ t1) = rev (s2 @ ''//'' @ t2)" by simp
  then have "rev t1 @ ''//'' @ rev s1 = rev t2 @ ''//'' @ rev s2" by simp
  from slash_prefix_unique[OF this] assms(2,3) show ?thesis by simp
qed

lemma groupBy_inj:
  assumes "groupBy r = groupBy r'"
    and "CHR ''/'' \<notin> set (Zone r)" "CHR ''/'' \<notin> set (Zone r')"
    and "CHR ''/'' \<notin> set (FieldType r)" "CHR ''/'' \<notin> set (FieldType r')"
  shows "group_of r = group_of r'"
proof -
  from assms(1) have "Zone r @ ''//'' @ (SubDomain r @ ''//'' @ FieldType r)
      = Zone r' @ ''//'' @ (SubDomain r' @ ''//'' @ FieldType r')"
    by (simp add: groupBy_def)
  from slash_prefix_unique[OF this assms(2,3)]
  have z: "Zone r = Zone r'" and "SubDomain r @ ''//'' @ FieldType r = SubDomain r' @ ''//'' @ FieldType r'"
    by simp_all
  from slash_suffix_unique[OF this(2) assms(4,5)] z show ?thesis
    by (simp add: group_of_def)
qed

lemma group_of_groupBy: "group_of r = group_of r' \<Longrightarrow> groupBy r = groupBy r'"
  by (simp add: group_of_def groupBy_def)

lemma group_add_apply:
  "group_add r groups k
   = (if k = groupBy r then Some ((case groups k of None \<Rightarrow> [] | Some g \<Rightarrow> g) @ [r])
      else groups k)"
  by (simp add: group_add_def Let_def split: option.splits)

lemma groups_fold:
  "fold group_add rs m k
   = (case m k of
        None \<Rightarrow> (if k \<in> groupBy ` set rs then Some (filter (\<lambda>r. groupBy r = k) rs) else None)
      | Some g \<Rightarrow> Some (g @ filter (\<lambda>r. groupBy r = k) rs))"
proof (induction rs arbitrary: m)
  case Nil
  then show ?case by (simp split: option.splits)
next
  case (Cons r rs)
  have "fold group_add (r # rs) m k = fold group_add rs (group_add r m) k" by simp
  also have "\<dots> = (case group_add r m k of
        None \<Rightarrow> (if k \<in> groupBy ` set rs then Some (filter (\<lambda>r. groupBy r = k) rs) else None)
      | Some g \<Rightarrow> Some (g @ filter (\<lambda>r. groupBy r = k) rs))"
    by (rule Cons.IH)
  also have "\<dots> = (case m k of
        None \<Rightarrow> (if k \<in> groupBy ` set (r # rs) then Some (filter (\<lambda>r. groupBy r = k) (r # rs)) else None)
      | Some g \<Rightarrow> Some (g @ filter (\<lambda>r. groupBy r = k) (r # rs)))"
    by (auto simp: group_add_apply split: option.splits)
  finally show ?case .
qed

lemma groups_of_eq:
  "groups_of rs k
   = (if k \<in> groupBy ` set rs then Some (filter (\<lambda>r. groupBy r = k) rs) else None)"
  by (simp add: groups_of_def groups_fold)

lemma fold_group_endpoint:
  "\<forall>kv \<in> set kvs. snd kv \<noteq> [] \<Longrightarrow>
   fold_option group_endpoint kvs acc
   = Some (acc @ map (\<lambda>kv. NewEndpointWithTTL
                        (TrimPrefix (SubDomain (hd (snd kv)) @ ''.'' @ Zone (hd (snd kv))) ''.'')
                        (FieldType (hd (snd kv))) (TTL (hd (snd kv))) (map Target (snd kv))) kvs)"
proof (induction kvs arbitrary: acc)
  case Nil
  then show ?case by simp
next
  case (Cons kv kvs)
  then obtain r0 g where "snd kv = r0 # g" by (cases "snd kv") auto
  with Cons show ?case by (simp add: group_endpoint_def)
qed

lemma range_items_order:
  "range_order m ks \<Longrightarrow> range_items m ks = map (\<lambda>k. (k, the (m k))) ks"
proof -
  assume "range_order m ks"
  then have "\<forall>k \<in> set ks. m k \<noteq> None" by (auto simp: range_order_def)
  then show ?thesis
    unfolding range_items_def
    by (induction ks) (auto simp: List.map_filter_simps)
qed

lemma ovhGroupByNameAndType_keys:
  assumes ord: "range_order (groups_of rs) ks"
  shows "ovhGroupByNameAndType ks rs
     = Some (map (\<lambda>k. NewEndpointWithTTL
                   (TrimPrefix (SubDomain (hd (filter (\<lambda>r. groupBy r = k) rs)) @ ''.''
                                @ Zone (hd (filter (\<lambda>r. groupBy r = k) rs))) ''.'')
                   (FieldType (hd (filter (\<lambda>r. groupBy r = k) rs)))
                   (TTL (hd (filter (\<lambda>r. groupBy r = k) rs)))
                   (map Target (filter (\<lambda>r. groupBy r = k) rs))) ks)"
proof -
  from ord have keys: "set ks = groupBy ` set rs"
    by (auto simp: range_order_def dom_def groups_of_eq split: if_splits)
  have items: "range_items (groups_of rs) ks = map (\<lambda>k. (k, filter (\<lambda>r. groupBy r = k) rs)) ks"
    unfolding range_items_order[OF ord]
    by (rule map_cong) (auto simp: groups_of_eq keys)
  have ne: "\<forall>kv \<in> set (map (\<lambda>k. (k, filter (\<lambda>r. groupBy r = k) rs)) ks). snd kv \<noteq> []"
    using keys by (auto simp: filter_empty_conv)
  show ?thesis
    unfolding ovhGroupByNameAndType_def items fold_group_endpoint[OF ne]
    by (simp add: comp_def)
qed

text \<open>
  C8, as amended. For a record set in which no zone name and no record type contains the
  character \<open>/\<close>, \<open>ovhGroupByNameAndType\<close> returns one Endpoint for each distinct
  (zone, subdomain, type) of the records, in the order of the loop over the groups; the
  targets of the Endpoint of a group are the targets of the records of the group.
\<close>

theorem grouping_by_name_and_type:
  assumes ord: "range_order (groups_of rs) ks"
    and slash: "\<forall>r \<in> set rs. CHR ''/'' \<notin> set (Zone r) \<and> CHR ''/'' \<notin> set (FieldType r)"
  shows "\<exists>gs. distinct gs \<and> set gs = group_of ` set rs
           \<and> ovhGroupByNameAndType ks rs = Some (map (endpoint_of_group rs) gs)
           \<and> (\<forall>g \<in> set gs. set (Targets (endpoint_of_group rs g))
                               = Target ` {r \<in> set rs. group_of r = g})"
proof -
  define G where "G = (\<lambda>k. filter (\<lambda>r. groupBy r = k) rs)"
  define h where "h = (\<lambda>k. hd (G k))"
  define gs where "gs = map (\<lambda>k. group_of (h k)) ks"
  from ord have dist: "distinct ks" and keys: "set ks = groupBy ` set rs"
    by (auto simp: range_order_def dom_def groups_of_eq split: if_splits)
  have inj: "group_of r = group_of r'" if "groupBy r = groupBy r'" "r \<in> set rs" "r' \<in> set rs" for r r'
    using groupBy_inj[OF that(1)] slash that(2,3) by blast
  have G_ne: "G k \<noteq> []" if "k \<in> set ks" for k
    using that keys by (auto simp: G_def filter_empty_conv)
  have h_G: "h k \<in> set (G k)" if "k \<in> set ks" for k
    unfolding h_def using G_ne[OF that] by (rule hd_in_set)
  have h_in: "h k \<in> set rs" and h_key: "groupBy (h k) = k" if "k \<in> set ks" for k
    using h_G[OF that] by (simp_all add: G_def)
  have same: "G k = members (group_of (h k)) rs" if "k \<in> set ks" for k
    unfolding members_def G_def
  proof (rule filter_cong[OF refl])
    fix r assume r: "r \<in> set rs"
    show "(groupBy r = k) = (group_of r = group_of (h k))"
    proof
      assume "groupBy r = k"
      then have "groupBy r = groupBy (h k)" using h_key[OF that] by (rule trans[OF _ sym])
      then show "group_of r = group_of (h k)" using r h_in[OF that] by (rule inj)
    next
      assume "group_of r = group_of (h k)"
      then have "groupBy r = groupBy (h k)" by (rule group_of_groupBy)
      then show "groupBy r = k" using h_key[OF that] by (rule trans)
    qed
  qed
  have ep: "NewEndpointWithTTL (TrimPrefix (SubDomain (h k) @ ''.'' @ Zone (h k)) ''.'')
              (FieldType (h k)) (TTL (h k)) (map Target (G k))
            = endpoint_of_group rs (group_of (h k))" if "k \<in> set ks" for k
  proof -
    from G_ne[OF that] obtain g where c: "G k = h k # g"
      unfolding h_def by (cases "G k") auto
    have m: "members (Zone (h k), SubDomain (h k), FieldType (h k)) rs = h k # g"
      using same[OF that] c by (simp add: group_of_def)
    show ?thesis
      by (simp add: endpoint_of_group_def NewEndpointWithTTL_def group_of_def m c)
  qed
  have "inj_on (\<lambda>k. group_of (h k)) (set ks)"
  proof (rule inj_onI)
    fix k k' assume k: "k \<in> set ks" "k' \<in> set ks" and e: "group_of (h k) = group_of (h k')"
    from e have "groupBy (h k) = groupBy (h k')" by (rule group_of_groupBy)
    then show "k = k'" unfolding h_key[OF k(1)] h_key[OF k(2)] .
  qed
  with dist have d: "distinct gs" by (simp add: gs_def distinct_map)
  have s: "set gs = group_of ` set rs"
  proof
    show "set gs \<subseteq> group_of ` set rs"
      using h_in by (auto simp: gs_def)
    show "group_of ` set rs \<subseteq> set gs"
    proof
      fix g assume "g \<in> group_of ` set rs"
      then obtain r where r: "r \<in> set rs" "g = group_of r" by auto
      then have k: "groupBy r \<in> set ks" using keys by simp
      from inj[OF h_key[OF k] h_in[OF k] r(1)] r(2) have "g = group_of (h (groupBy r))" by simp
      with k show "g \<in> set gs" unfolding gs_def by (auto intro!: image_eqI)
    qed
  qed
  have "ovhGroupByNameAndType ks rs
     = Some (map (\<lambda>k. NewEndpointWithTTL (TrimPrefix (SubDomain (h k) @ ''.'' @ Zone (h k)) ''.'')
              (FieldType (h k)) (TTL (h k)) (map Target (G k))) ks)"
    unfolding ovhGroupByNameAndType_keys[OF ord] h_def G_def ..
  also have "map (\<lambda>k. NewEndpointWithTTL (TrimPrefix (SubDomain (h k) @ ''.'' @ Zone (h k)) ''.'')
              (FieldType (h k)) (TTL (h k)) (map Target (G k))) ks
            = map (\<lambda>k. endpoint_of_group rs (group_of (h k))) ks"
    by (rule map_cong[OF refl]) (rule ep)
  also have "\<dots> = map (endpoint_of_group rs) gs"
    by (simp add: gs_def comp_def)
  finally have e: "ovhGroupByNameAndType ks rs = Some (map (endpoint_of_group rs) gs)" .
  have t: "\<forall>g \<in> set gs. set (Targets (endpoint_of_group rs g))
                               = Target ` {r \<in> set rs. group_of r = g}"
    by (auto simp: endpoint_of_group_def members_def split: prod.splits)
  from d s e t show ?thesis by blast
qed

lemma slash_groups:
  "groups_of [slash_sub, slash_zone] = [''example.com//a//b//A'' \<mapsto> [slash_sub, slash_zone]]"
  by (auto simp: groups_of_def group_add_apply groupBy_def slash_sub_def slash_zone_def fun_eq_iff)

text \<open>
  Two records of distinct groups whose grouping keys coincide get one Endpoint, with the
  targets of both.
\<close>

theorem grouping_counterexample:
  "range_order (groups_of [slash_sub, slash_zone]) [''example.com//a//b//A'']
   \<and> group_of slash_sub \<noteq> group_of slash_zone
   \<and> ovhGroupByNameAndType [''example.com//a//b//A''] [slash_sub, slash_zone]
       = Some [\<lparr>DNSName = ''a//b.example.com'', Targets = [''1.1.1.1'', ''2.2.2.2''],
                 RecordType = ''A'', RecordTTL = 0\<rparr>]"
  unfolding slash_groups ovhGroupByNameAndType_def
  by (simp add: range_order_def range_items_def List.map_filter_simps group_endpoint_def
      NewEndpointWithTTL_def TrimPrefix_def HasPrefix_def group_of_def slash_sub_def slash_zone_def)

lemma scenarioA_groups:
  "groups_of [scenarioA_r10, scenarioA_r11] = [''example.com//www//A'' \<mapsto> [scenarioA_r10, scenarioA_r11]]"
  by (auto simp: groups_of_def group_add_apply groupBy_def scenarioA_r10_def scenarioA_r11_def fun_eq_iff)

theorem grouping_witness:
  "range_order (groups_of [scenarioA_r10, scenarioA_r11]) [''example.com//www//A'']
   \<and> CHR ''/'' \<notin> set (Zone scenarioA_r10) \<and> CHR ''/'' \<notin> set (FieldType scenarioA_r10)
   \<and> CHR ''/'' \<notin> set (Zone scenarioA_r11) \<and> CHR ''/'' \<notin> set (FieldType scenarioA_r11)
   \<and> ovhGroupByNameAndType [''example.com//www//A''] [scenarioA_r10, scenarioA_r11]
       = Some [\<lparr>DNSName = ''www.example.com'', Targets = [''1.1.1.1'', ''2.2.2.2''],
                 RecordType = ''A'', RecordTTL = 0\<rparr>]"
proof -
  have ord: "range_order (groups_of [scenarioA_r10, scenarioA_r11]) [''example.com//www//A'']"
    unfolding scenarioA_groups by (simp add: range_order_def)
  have slash: "\<forall>r \<in> set [scenarioA_r10, scenarioA_r11].
      CHR ''/'' \<notin> set (Zone r) \<and> CHR ''/'' \<notin> set (FieldType r)"
    by (simp add: scenarioA_r10_def scenarioA_r11_def)
  from grouping_by_name_and_type[OF ord slash] obtain gs where
    gs: "distinct gs" "set gs = group_of ` set [scenarioA_r10, scenarioA_r11]"
    and e: "ovhGroupByNameAndType [''example.com//www//A''] [scenarioA_r10, scenarioA_r11]
            = Some (map (endpoint_of_group [scenarioA_r10, scenarioA_r11]) gs)"
    by blast
  from gs(2) have "set gs = {(''example.com'', ''www'', ''A'')}"
    by (simp add: group_of_def scenarioA_r10_def scenarioA_r11_def)
  with gs(1) have "gs = [(''example.com'', ''www'', ''A'')]"
    by (cases gs) (auto simp: insert_eq_iff dest: subset_singletonD)
  with e have "ovhGroupByNameAndType [''example.com//www//A''] [scenarioA_r10, scenarioA_r11]
       = Some [\<lparr>DNSName = ''www.example.com'', Targets = [''1.1.1.1'', ''2.2.2.2''],
                 RecordType = ''A'', RecordTTL = 0\<rparr>]"
    by (simp add: endpoint_of_group_def members_def group_of_def TrimPrefix_def HasPrefix_def
        scenarioA_r10_def scenarioA_r11_def)
  with ord slash show ?thesis by simp
qed

end
